theory Spec2Isabelle
  imports Complex_Main
begin

section \<open>Tensor entries\<close>

text \<open>
  The entries of the tensors in \<^verbatim>\<open>knn_normalized.py\<close> are IEEE-754 numbers. They are
  modelled here as exact reals together with the three special values that the kernels can
  produce: both infinities and not-a-number. Rounding, overflow and underflow of finite
  values are not modelled, so "equal up to floating tolerance" reads as equality.

  Zero carries no sign in this model. Every divisor of the modelled code is a distance, a
  product of distances or a sum of exponentials, so a zero divisor is the positive zero.
\<close>

datatype fl = NInf | Fin real | PInf | NaN

definition inf_of_sign :: "real \<Rightarrow> fl" where
  "inf_of_sign x = (if 0 < x then PInf else if x < 0 then NInf else NaN)"

fun fl_neg :: "fl \<Rightarrow> fl" where
  "fl_neg NaN = NaN"
| "fl_neg PInf = NInf"
| "fl_neg NInf = PInf"
| "fl_neg (Fin x) = Fin (- x)"

fun fl_add :: "fl \<Rightarrow> fl \<Rightarrow> fl" where
  "fl_add NaN b = NaN"
| "fl_add a NaN = NaN"
| "fl_add PInf NInf = NaN"
| "fl_add NInf PInf = NaN"
| "fl_add PInf b = PInf"
| "fl_add a PInf = PInf"
| "fl_add NInf b = NInf"
| "fl_add a NInf = NInf"
| "fl_add (Fin x) (Fin y) = Fin (x + y)"

definition fl_sub :: "fl \<Rightarrow> fl \<Rightarrow> fl" where
  "fl_sub a b = fl_add a (fl_neg b)"

fun fl_mul :: "fl \<Rightarrow> fl \<Rightarrow> fl" where
  "fl_mul NaN b = NaN"
| "fl_mul a NaN = NaN"
| "fl_mul PInf PInf = PInf"
| "fl_mul PInf NInf = NInf"
| "fl_mul NInf PInf = NInf"
| "fl_mul NInf NInf = PInf"
| "fl_mul PInf (Fin y) = inf_of_sign y"
| "fl_mul NInf (Fin y) = inf_of_sign (- y)"
| "fl_mul (Fin x) PInf = inf_of_sign x"
| "fl_mul (Fin x) NInf = inf_of_sign (- x)"
| "fl_mul (Fin x) (Fin y) = Fin (x * y)"

fun fl_div :: "fl \<Rightarrow> fl \<Rightarrow> fl" where
  "fl_div NaN b = NaN"
| "fl_div a NaN = NaN"
| "fl_div PInf PInf = NaN"
| "fl_div PInf NInf = NaN"
| "fl_div NInf PInf = NaN"
| "fl_div NInf NInf = NaN"
| "fl_div (Fin x) PInf = Fin 0"
| "fl_div (Fin x) NInf = Fin 0"
| "fl_div PInf (Fin y) = (if y < 0 then NInf else PInf)"
| "fl_div NInf (Fin y) = (if y < 0 then PInf else NInf)"
| "fl_div (Fin x) (Fin y) = (if y = 0 then inf_of_sign x else Fin (x / y))"

fun fl_exp :: "fl \<Rightarrow> fl" where
  "fl_exp NaN = NaN"
| "fl_exp PInf = PInf"
| "fl_exp NInf = Fin 0"
| "fl_exp (Fin x) = Fin (exp x)"

fun fl_log :: "fl \<Rightarrow> fl" where
  "fl_log NaN = NaN"
| "fl_log PInf = PInf"
| "fl_log NInf = NaN"
| "fl_log (Fin x) = (if x < 0 then NaN else if x = 0 then NInf else Fin (ln x))"

text \<open>
  The order in which \<^verbatim>\<open>torch.topk\<close> and \<^verbatim>\<open>torch.sort\<close> arrange entries: by value,
  with not-a-number after every other entry.
\<close>

instantiation fl :: linorder
begin

fun less_eq_fl :: "fl \<Rightarrow> fl \<Rightarrow> bool" where
  "less_eq_fl a NaN = True"
| "less_eq_fl NaN b = False"
| "less_eq_fl NInf b = True"
| "less_eq_fl a NInf = False"
| "less_eq_fl a PInf = True"
| "less_eq_fl PInf b = False"
| "less_eq_fl (Fin x) (Fin y) = (x \<le> y)"

definition less_fl :: "fl \<Rightarrow> fl \<Rightarrow> bool" where
  "less_fl a b = (a \<le> b \<and> \<not> b \<le> a)"

instance
proof
  fix x y z :: fl
  show "(x < y) = (x \<le> y \<and> \<not> y \<le> x)"
    by (simp add: less_fl_def)
  show "x \<le> x"
    by (cases x) simp_all
  show "x \<le> y \<Longrightarrow> y \<le> z \<Longrightarrow> x \<le> z"
    by (cases x; cases y; cases z) simp_all
  show "x \<le> y \<Longrightarrow> y \<le> x \<Longrightarrow> x = y"
    by (cases x; cases y) simp_all
  show "x \<le> y \<or> y \<le> x"
    by (cases x; cases y) auto
qed

end

definition fl_sum :: "fl list \<Rightarrow> fl" where
  "fl_sum xs = foldr fl_add xs (Fin 0)"

definition fl_logsumexp :: "fl list \<Rightarrow> fl" where
  "fl_logsumexp xs = fl_log (fl_sum (map fl_exp xs))"

section \<open>Tensors and the helpers of \<^verbatim>\<open>torchdr.utils\<close>\<close>

text \<open>
  A one-dimensional tensor is a list of entries, a two-dimensional tensor the list of its
  rows. A tensor without rows is taken to have no columns; the affinity code never
  computes on one, because the slice of the last column fails on it first.
\<close>

type_synonym vec = "fl list"
type_synonym mat = "fl list list"

text \<open>
  The exceptions: \<^verbatim>\<open>InvalidKError\<close> and \<^verbatim>\<open>DegenerateBandwidthError\<close> are the error kinds
  that the specification names for the bandwidth, the others are Python's and torch's own.
\<close>

datatype error =
    InvalidKError
  | DegenerateBandwidthError
  | RuntimeError
  | IndexError
  | TypeError
  | ValueError string

definition ncols :: "mat \<Rightarrow> nat" where
  "ncols A = (case A of [] \<Rightarrow> 0 | r # _ \<Rightarrow> length r)"

definition is_mat :: "nat \<Rightarrow> nat \<Rightarrow> mat \<Rightarrow> bool" where
  "is_mat n m A = (length A = n \<and> list_all (\<lambda>r. length r = m) A)"

text \<open>
  Elementwise arithmetic of two tensors broadcasts: along each axis the two sizes are equal
  or one of them is 1, and the operand of size 1 is repeated. Any other pair of shapes
  raises \<^verbatim>\<open>RuntimeError\<close>.
\<close>

definition bcast_dim :: "nat \<Rightarrow> nat \<Rightarrow> nat option" where
  "bcast_dim a b =
     (if a = b then Some a else if a = 1 then Some b else if b = 1 then Some a else None)"

definition pick :: "mat \<Rightarrow> nat \<Rightarrow> nat \<Rightarrow> fl" where
  "pick A i j = A ! (if length A = 1 then 0 else i) ! (if ncols A = 1 then 0 else j)"

definition bcast :: "(fl \<Rightarrow> fl \<Rightarrow> fl) \<Rightarrow> mat \<Rightarrow> mat \<Rightarrow> error + mat" where
  "bcast f A B =
     (case bcast_dim (length A) (length B) of
        None \<Rightarrow> Inl RuntimeError
      | Some r \<Rightarrow>
          (case bcast_dim (ncols A) (ncols B) of
             None \<Rightarrow> Inl RuntimeError
           | Some c \<Rightarrow>
               Inr (map (\<lambda>i. map (\<lambda>j. f (pick A i j) (pick B i j)) [0..<c]) [0..<r])))"

definition neg :: "mat \<Rightarrow> mat" where
  "neg A = map (map fl_neg) A"

definition exp_mat :: "mat \<Rightarrow> mat" where
  "exp_mat A = map (map fl_exp) A"

definition div_scalar :: "mat \<Rightarrow> real \<Rightarrow> mat" where
  "div_scalar A c = map (map (\<lambda>x. fl_div x (Fin c))) A"

text \<open>
  Modelled from the spec: \<^verbatim>\<open>wrap_vectors\<close> of \<^verbatim>\<open>torchdr.utils\<close> is missing from the
  sources. The decorator makes a vector argument compatible with the pairwise cost matrix:
  a one-dimensional bandwidth becomes a column, one entry per row of the matrix.
\<close>

definition wrap_vectors :: "vec \<Rightarrow> mat" where
  "wrap_vectors v = map (\<lambda>x. [x]) v"

text \<open>
  Modelled from the spec: \<^verbatim>\<open>matrix_transpose\<close> of \<^verbatim>\<open>torchdr.utils\<close> is missing from
  the sources; the spec's interface is \<^verbatim>\<open>transpose(M) -> M^t\<close>.
\<close>

definition matrix_transpose :: "mat \<Rightarrow> mat" where
  "matrix_transpose A = transpose A"

text \<open>
  Modelled from the spec: \<^verbatim>\<open>sum_red\<close> of \<^verbatim>\<open>torchdr.utils\<close> is missing from the
  sources; the spec's interface is \<^verbatim>\<open>sum_reduce(M, axis) -> rowsum\<close>. The code calls it
  with \<^verbatim>\<open>dim=1\<close> only and divides the matrix by the result, so the sums come as a column.
\<close>

definition sum_red :: "mat \<Rightarrow> mat" where
  "sum_red A = map (\<lambda>r. [fl_sum r]) A"

text \<open>
  The axis specification of the log-domain normalisation: a single axis, \<^verbatim>\<open>0\<close> or
  \<^verbatim>\<open>1\<close>, or the pair \<^verbatim>\<open>(0, 1)\<close>, the default.
\<close>

datatype norm_dim = Axis0 | Axis1 | Joint

text \<open>
  Modelled from the spec: \<^verbatim>\<open>logsumexp_red\<close> of \<^verbatim>\<open>torchdr.utils\<close> is missing from the
  sources; the spec's interface is \<^verbatim>\<open>log_sum_exp_reduce(logM, axis_or_axes) -> logZ\<close>, the
  log-partition term over a single axis or jointly over both. The reduced axes are kept with
  size 1, so that the term is subtracted from every entry by broadcasting.
\<close>

definition logsumexp_red :: "mat \<Rightarrow> norm_dim \<Rightarrow> mat" where
  "logsumexp_red A d =
     (case d of
        Axis0 \<Rightarrow> [map fl_logsumexp (transpose A)]
      | Axis1 \<Rightarrow> map (\<lambda>r. [fl_logsumexp r]) A
      | Joint \<Rightarrow> [[fl_logsumexp (concat A)]])"

text \<open>
  Modelled from the spec: \<^verbatim>\<open>kmin\<close> of \<^verbatim>\<open>torchdr.utils\<close> is missing from the sources.
  The spec's interface is \<^verbatim>\<open>k_min(C, k, axis) -> (values, indices)\<close>, the k smallest entries
  per row. The values of a row come in ascending order; the indices, which the affinity code
  discards, are left out. The interface names no failure, so none is modelled: a row has
  no entry among its k smallest when k is not positive, and all its entries when k exceeds
  their number.
\<close>

definition kmin :: "mat \<Rightarrow> int \<Rightarrow> error + mat" where
  "kmin A k = Inr (map (\<lambda>r. take (nat k) (sort r)) A)"

text \<open>The slice \<^verbatim>\<open>minK_values[:, -1]\<close>: the last column, as a one-dimensional tensor.\<close>

definition last_column :: "mat \<Rightarrow> error + vec" where
  "last_column V = (if ncols V = 0 then Inl IndexError else Inr (map last V))"

section \<open>The kernels of \<^verbatim>\<open>knn_normalized.py\<close>\<close>

definition log_SelfTuning :: "mat \<Rightarrow> vec \<Rightarrow> error + mat" where
  "log_SelfTuning C sigma =
     (let s = wrap_vectors sigma;
          sigma_t = matrix_transpose s
      in case bcast fl_mul s sigma_t of
           Inl e \<Rightarrow> Inl e
         | Inr d \<Rightarrow> bcast fl_div (neg C) d)"

definition log_MAGIC :: "mat \<Rightarrow> vec \<Rightarrow> error + mat" where
  "log_MAGIC C sigma = bcast fl_div (neg C) (wrap_vectors sigma)"

section \<open>The affinities\<close>

text \<open>
  The fitted attributes \<^verbatim>\<open>sigma_\<close> and \<^verbatim>\<open>log_normalization_\<close> are fields that
  \<^verbatim>\<open>None\<close> marks as not yet set. Each method returns the object as it leaves it together
  with its outcome, so that an attribute assigned before an exception stays assigned. The
  argument \<open>C\<close> is the matrix that \<^verbatim>\<open>self._distance_matrix(X)\<close> returned.

  The helper \<^verbatim>\<open>kmin\<close> is not in the sources. Each method is therefore written first for
  any helper \<open>k_min\<close>, which may raise, and then for the helper as modelled above.
\<close>

record SelfTuningAffinity =
  st_K :: int
  st_normalization_dim :: "norm_dim option"
  st_sigma :: "vec option"
  st_log_normalization :: "mat option"

definition SelfTuning_compute_log_affinity_with ::
  "(mat \<Rightarrow> int \<Rightarrow> error + mat) \<Rightarrow> SelfTuningAffinity \<Rightarrow> mat
     \<Rightarrow> SelfTuningAffinity \<times> (error + mat)" where
  "SelfTuning_compute_log_affinity_with k_min self C =
     (case k_min C (st_K self) of
        Inl e \<Rightarrow> (self, Inl e)
      | Inr minK_values \<Rightarrow>
          (case last_column minK_values of
             Inl e \<Rightarrow> (self, Inl e)
           | Inr sg \<Rightarrow>
               (let self1 = self\<lparr>st_sigma := Some sg\<rparr>
                in case log_SelfTuning C sg of
                     Inl e \<Rightarrow> (self1, Inl e)
                   | Inr log_affinity_matrix \<Rightarrow>
                       (case st_normalization_dim self1 of
                          None \<Rightarrow> (self1, Inr log_affinity_matrix)
                        | Some d \<Rightarrow>
                            (let ln = logsumexp_red log_affinity_matrix d;
                                 self2 = self1\<lparr>st_log_normalization := Some ln\<rparr>
                             in (self2, bcast fl_sub log_affinity_matrix ln))))))"

definition SelfTuning_compute_log_affinity ::
  "SelfTuningAffinity \<Rightarrow> mat \<Rightarrow> SelfTuningAffinity \<times> (error + mat)" where
  "SelfTuning_compute_log_affinity self C = SelfTuning_compute_log_affinity_with kmin self C"

record MAGICAffinity =
  mg_K :: int
  mg_sigma :: "vec option"

definition MAGIC_compute_affinity_with ::
  "(mat \<Rightarrow> int \<Rightarrow> error + mat) \<Rightarrow> MAGICAffinity \<Rightarrow> mat
     \<Rightarrow> MAGICAffinity \<times> (error + mat)" where
  "MAGIC_compute_affinity_with k_min self C =
     (case k_min C (mg_K self) of
        Inl e \<Rightarrow> (self, Inl e)
      | Inr minK_values \<Rightarrow>
          (case last_column minK_values of
             Inl e \<Rightarrow> (self, Inl e)
           | Inr sg \<Rightarrow>
               (let self1 = self\<lparr>mg_sigma := Some sg\<rparr>
                in (self1,
                    case log_MAGIC C sg of
                      Inl e \<Rightarrow> Inl e
                    | Inr L \<Rightarrow>
                        (let P = exp_mat L
                         in case bcast fl_add P (matrix_transpose P) of
                              Inl e \<Rightarrow> Inl e
                            | Inr P2 \<Rightarrow>
                                (let S = div_scalar P2 2
                                 in bcast fl_div S (sum_red S)))))))"

definition MAGIC_compute_affinity ::
  "MAGICAffinity \<Rightarrow> mat \<Rightarrow> MAGICAffinity \<times> (error + mat)" where
  "MAGIC_compute_affinity self C = MAGIC_compute_affinity_with kmin self C"

section \<open>Reference notions of the specification\<close>

text \<open>
  The K-th smallest entry of a row, counted from 1 and with duplicates: an entry of the row
  with fewer than K entries strictly below it and at least K entries not above it.
\<close>

definition is_kth_smallest :: "nat \<Rightarrow> fl list \<Rightarrow> fl \<Rightarrow> bool" where
  "is_kth_smallest k xs v =
     (v \<in> set xs \<and> length (filter (\<lambda>x. x < v) xs) < k \<and> k \<le> length (filter (\<lambda>x. x \<le> v) xs))"

text \<open>The entry at position K, counted from 1, of every row sorted in ascending order.\<close>

definition kth_values :: "mat \<Rightarrow> int \<Rightarrow> vec" where
  "kth_values C K = map (\<lambda>r. sort r ! (nat K - 1)) C"

text \<open>
  The three steps of the diffusion affinity as the specification words them, entry by entry:
  the kernel \<^verbatim>\<open>P[i,j] = exp(-C[i,j] / sigma_i)\<close>, the average with the transpose
  \<^verbatim>\<open>(P[i,j] + P[j,i]) / 2\<close>, and the division of every row by its sum.
\<close>

definition kernel_step :: "mat \<Rightarrow> vec \<Rightarrow> mat" where
  "kernel_step C sigma =
     map (\<lambda>i. map (\<lambda>j. fl_exp (fl_div (fl_neg (C ! i ! j)) (sigma ! i))) [0..<length (C ! i)])
       [0..<length C]"

definition symmetrize_step :: "mat \<Rightarrow> mat" where
  "symmetrize_step P =
     map (\<lambda>i. map (\<lambda>j. fl_div (fl_add (P ! i ! j) (P ! j ! i)) (Fin 2)) [0..<length (P ! i)])
       [0..<length P]"

definition row_normalize_step :: "mat \<Rightarrow> mat" where
  "row_normalize_step P =
     map (\<lambda>i. map (\<lambda>j. fl_div (P ! i ! j) (fl_sum (P ! i))) [0..<length (P ! i)])
       [0..<length P]"

text \<open>
  The self-tuning kernel as the specification words it, entry by entry:
  \<^verbatim>\<open>logP[i,j] = -C[i,j] / (sigma_i * sigma_j)\<close>.
\<close>

definition self_tuning_step :: "mat \<Rightarrow> vec \<Rightarrow> mat" where
  "self_tuning_step C sigma =
     map (\<lambda>i. map (\<lambda>j. fl_div (fl_neg (C ! i ! j)) (fl_mul (sigma ! i) (sigma ! j)))
         [0..<length (C ! i)]) [0..<length C]"

text \<open>
  The log-partition term that the normalisation over an axis specification subtracts from
  the entry (i, j): over the column j for axis 0, over the row i for axis 1, over the whole
  matrix for the pair of axes.
\<close>

definition norm_term :: "mat \<Rightarrow> norm_dim \<Rightarrow> nat \<Rightarrow> nat \<Rightarrow> fl" where
  "norm_term L d i j =
     (case d of
        Axis0 \<Rightarrow> fl_logsumexp (map (\<lambda>r. r ! j) L)
      | Axis1 \<Rightarrow> fl_logsumexp (L ! i)
      | Joint \<Rightarrow> fl_logsumexp (concat L))"

text \<open>The sum over all entries (i, j) of \<^verbatim>\<open>exp(logP[i,j])\<close>.\<close>

definition total_mass :: "mat \<Rightarrow> fl" where
  "total_mass L = fl_sum (map fl_exp (concat L))"

section \<open>The constructor of \<^verbatim>\<open>PHATE\<close>\<close>

text \<open>
  Python values, as far as the constructor handles them. An object of a class that the
  sources do not contain is the name of the class with the keyword arguments it was built
  from.
\<close>

datatype pyval =
    PNone
  | PBool bool
  | PInt int
  | PFloat real
  | PStr string
  | PDict "(string \<times> pyval) list"
  | PObject string "(string \<times> pyval) list"

type_synonym kwargs = "(string \<times> pyval) list"

text \<open>The parameters of \<^verbatim>\<open>PHATE.__init__\<close> in their order, with their defaults.\<close>

definition PHATE_signature :: kwargs where
  "PHATE_signature =
     [(''n_neighbors'', PInt 10),
      (''n_components'', PInt 2),
      (''t'', PInt 5),
      (''eps'', PFloat (1 / 100000)),
      (''optimizer'', PStr ''Adam''),
      (''optimizer_kwargs'', PDict []),
      (''lr'', PFloat 1),
      (''scheduler'', PNone),
      (''scheduler_kwargs'', PDict []),
      (''min_grad_norm'', PFloat (1 / 10000000)),
      (''max_iter'', PInt 1000),
      (''init'', PStr ''pca''),
      (''init_scaling'', PFloat 1),
      (''device'', PStr ''auto''),
      (''backend'', PNone),
      (''verbose'', PBool False),
      (''random_state'', PNone),
      (''check_interval'', PInt 50)]"

text \<open>The default of \<^verbatim>\<open>init_scaling\<close> that the docstring of the class states.\<close>

definition documented_init_scaling :: real where
  "documented_init_scaling = 1 / 10000"

text \<open>
  The value a parameter is bound to in a call with the keyword arguments \<open>kw\<close>: the
  argument when the call gives one, the default otherwise.
\<close>

definition arg :: "kwargs \<Rightarrow> string \<Rightarrow> pyval" where
  "arg kw name =
     (case map_of kw name of
        Some v \<Rightarrow> v
      | None \<Rightarrow> (case map_of PHATE_signature name of Some v \<Rightarrow> v | None \<Rightarrow> PNone))"

definition faiss_message :: "string \<Rightarrow> string" where
  "faiss_message cls =
     ''[TorchDR] ERROR : FAISS backend is not supported for PHATE. '' @
     ''The '' @ cls @ '' class does not support sparsity. '' @
     ''Please use backend None or 'keops' instead.''"

text \<open>
  The object after construction: the three attributes the constructor assigns and the
  keyword arguments it hands to \<^verbatim>\<open>AffinityMatcher.__init__\<close>.
\<close>

record PHATE =
  ph_n_neighbors :: pyval
  ph_t :: pyval
  ph_eps :: pyval
  ph_super_init :: kwargs

text \<open>A call with a keyword that is no parameter raises \<^verbatim>\<open>TypeError\<close> before the body runs.\<close>

definition valid_keywords :: "kwargs \<Rightarrow> bool" where
  "valid_keywords kw = list_all (\<lambda>k. k \<in> set (map fst PHATE_signature)) (map fst kw)"

text \<open>
  The constructor, for the name \<open>cls\<close> of the class being instantiated and the keyword
  arguments of the call. It returns the calls it made to code outside the sources, in their
  order, each with its keyword arguments, and either the exception it raised or the object.
  The affinities and \<^verbatim>\<open>AffinityMatcher\<close> are not in the sources: what they do with their
  arguments is not modelled.
\<close>

definition PHATE_init :: "string \<Rightarrow> kwargs \<Rightarrow> (string \<times> kwargs) list \<times> (error + PHATE)" where
  "PHATE_init cls kw =
     (if \<not> valid_keywords kw
      then ([], Inl TypeError)
      else if arg kw ''backend'' = PStr ''faiss''
      then ([], Inl (ValueError (faiss_message cls)))
      else
        (let affinity_in_kw =
               [(''backend'', arg kw ''backend''),
                (''device'', arg kw ''device''),
                (''eps'', arg kw ''eps''),
                (''t'', arg kw ''t''),
                (''K'', arg kw ''n_neighbors'')];
             affinity_out_kw =
               [(''backend'', arg kw ''backend''),
                (''device'', arg kw ''device'')];
             super_kw =
               [(''affinity_in'', PObject ''NegPotentialAffinity'' affinity_in_kw),
                (''affinity_out'', PObject ''NegativeCostAffinity'' affinity_out_kw),
                (''n_components'', arg kw ''n_components''),
                (''loss_fn'', PStr ''l2_loss''),
                (''optimizer'', arg kw ''optimizer''),
                (''optimizer_kwargs'', arg kw ''optimizer_kwargs''),
                (''lr'', arg kw ''lr''),
                (''scheduler'', arg kw ''scheduler''),
                (''scheduler_kwargs'', arg kw ''scheduler_kwargs''),
                (''min_grad_norm'', arg kw ''min_grad_norm''),
                (''max_iter'', arg kw ''max_iter''),
                (''init'', arg kw ''init''),
                (''init_scaling'', arg kw ''init_scaling''),
                (''device'', arg kw ''device''),
                (''backend'', arg kw ''backend''),
                (''verbose'', arg kw ''verbose''),
                (''random_state'', arg kw ''random_state''),
                (''check_interval'', arg kw ''check_interval'')]
         in ([(''NegPotentialAffinity'', affinity_in_kw),
              (''NegativeCostAffinity'', affinity_out_kw),
              (''AffinityMatcher.__init__'', super_kw)],
             Inr \<lparr>ph_n_neighbors = arg kw ''n_neighbors'', ph_t = arg kw ''t'',
                  ph_eps = arg kw ''eps'', ph_super_init = super_kw\<rparr>)))"

section \<open>Bandwidth estimation\<close>

lemma SelfTuning_compute_log_affinity_unfold:
  "SelfTuning_compute_log_affinity self C =
     (case kmin C (st_K self) of
        Inl e \<Rightarrow> (self, Inl e)
      | Inr minK_values \<Rightarrow>
          (case last_column minK_values of
             Inl e \<Rightarrow> (self, Inl e)
           | Inr sg \<Rightarrow>
               (let self1 = self\<lparr>st_sigma := Some sg\<rparr>
                in case log_SelfTuning C sg of
                     Inl e \<Rightarrow> (self1, Inl e)
                   | Inr log_affinity_matrix \<Rightarrow>
                       (case st_normalization_dim self1 of
                          None \<Rightarrow> (self1, Inr log_affinity_matrix)
                        | Some d \<Rightarrow>
                            (let ln = logsumexp_red log_affinity_matrix d;
                                 self2 = self1\<lparr>st_log_normalization := Some ln\<rparr>
                             in (self2, bcast fl_sub log_affinity_matrix ln))))))"
  by (simp add: SelfTuning_compute_log_affinity_def SelfTuning_compute_log_affinity_with_def)

lemma MAGIC_compute_affinity_unfold:
  "MAGIC_compute_affinity self C =
     (case kmin C (mg_K self) of
        Inl e \<Rightarrow> (self, Inl e)
      | Inr minK_values \<Rightarrow>
          (case last_column minK_values of
             Inl e \<Rightarrow> (self, Inl e)
           | Inr sg \<Rightarrow>
               (let self1 = self\<lparr>mg_sigma := Some sg\<rparr>
                in (self1,
                    case log_MAGIC C sg of
                      Inl e \<Rightarrow> Inl e
                    | Inr L \<Rightarrow>
                        (let P = exp_mat L
                         in case bcast fl_add P (matrix_transpose P) of
                              Inl e \<Rightarrow> Inl e
                            | Inr P2 \<Rightarrow>
                                (let S = div_scalar P2 2
                                 in bcast fl_div S (sum_red S)))))))"
  by (simp add: MAGIC_compute_affinity_def MAGIC_compute_affinity_with_def)

lemma length_filter_sort: "length (filter P (sort xs)) = length (filter P (xs::fl list))"
  by (simp add: filter_sort)

lemma sorted_filter_less_prefix:
  assumes "sorted (ys::fl list)" "m < length ys"
  shows "length (filter (\<lambda>x. x < ys ! m) ys) \<le> m"
proof -
  have "filter (\<lambda>x. x < ys ! m) (drop m ys) = []"
  proof -
    have "\<forall>x\<in>set (drop m ys). ys ! m \<le> x"
      using assms by (auto simp: in_set_conv_nth sorted_iff_nth_mono)
    then show ?thesis
      by (auto simp: filter_empty_conv)
  qed
  then have "filter (\<lambda>x. x < ys ! m) ys = filter (\<lambda>x. x < ys ! m) (take m ys)"
    by (metis append_Nil2 append_take_drop_id filter_append)
  then show ?thesis
    by (metis assms(2) length_filter_le length_take less_imp_le_nat min.absorb2)
qed

lemma sorted_filter_le_prefix:
  assumes "sorted (ys::fl list)" "m < length ys"
  shows "Suc m \<le> length (filter (\<lambda>x. x \<le> ys ! m) ys)"
proof -
  have "\<forall>x\<in>set (take (Suc m) ys). x \<le> ys ! m"
    using assms by (auto simp: in_set_conv_nth sorted_iff_nth_mono)
  then have "filter (\<lambda>x. x \<le> ys ! m) (take (Suc m) ys) = take (Suc m) ys"
    by (simp add: filter_id_conv)
  moreover have "length (filter (\<lambda>x. x \<le> ys ! m) ys)
      = length (filter (\<lambda>x. x \<le> ys ! m) (take (Suc m) ys)) + length (filter (\<lambda>x. x \<le> ys ! m) (drop (Suc m) ys))"
    by (metis append_take_drop_id filter_append length_append)
  ultimately show ?thesis
    using assms(2) by simp
qed

lemma kth_smallest_sort:
  assumes "0 < k" "k \<le> length xs"
  shows "is_kth_smallest k xs (sort xs ! (k - 1))"
proof -
  let ?ys = "sort xs"
  have m: "k - 1 < length ?ys"
    using assms by simp
  have "?ys ! (k - 1) \<in> set ?ys"
    using m nth_mem by blast
  moreover have "length (filter (\<lambda>x. x < ?ys ! (k - 1)) ?ys) \<le> k - 1"
    using sorted_filter_less_prefix [OF sorted_sort m] .
  moreover have "Suc (k - 1) \<le> length (filter (\<lambda>x. x \<le> ?ys ! (k - 1)) ?ys)"
    using sorted_filter_le_prefix [OF sorted_sort m] .
  ultimately show ?thesis
    using assms(1) by (simp add: is_kth_smallest_def length_filter_sort)
qed

lemma length_filter_mono:
  assumes "\<And>x. P x \<Longrightarrow> Q x"
  shows "length (filter P xs) \<le> length (filter Q xs)"
  using assms by (induction xs) auto

lemma kth_smallest_unique:
  assumes "is_kth_smallest k xs v" "is_kth_smallest k xs w"
  shows "v = w"
proof -
  have *: "\<not> a < b" if "is_kth_smallest k xs a" "is_kth_smallest k xs b" for a b
  proof
    assume "a < b"
    then have "length (filter (\<lambda>x. x \<le> a) xs) \<le> length (filter (\<lambda>x. x < b) xs)"
      by (intro length_filter_mono) simp
    with that show False
      by (simp add: is_kth_smallest_def)
  qed
  show ?thesis
    using *[OF assms] *[OF assms(2,1)] by simp
qed

lemma last_take_sort:
  assumes "0 < k" "k \<le> length xs"
  shows "last (take k (sort xs)) = sort xs ! (k - 1)"
proof -
  have "length (take k (sort xs)) = k"
    using assms by simp
  with assms(1) have "take k (sort xs) \<noteq> []"
    by (metis length_0_conv less_numeral_extra(3))
  then have "last (take k (sort xs)) = take k (sort xs) ! (length (take k (sort xs)) - 1)"
    by (rule last_conv_nth)
  also have "\<dots> = sort xs ! (k - 1)"
    using assms by simp
  finally show ?thesis .
qed

lemma ncols_is_mat: "is_mat n m A \<Longrightarrow> 0 < n \<Longrightarrow> ncols A = m"
  by (cases A) (auto simp: is_mat_def ncols_def)

lemma bandwidth_estimate:
  assumes "is_mat n m C" "0 < n" "1 \<le> K" "K \<le> int m"
  shows "kmin C K = Inr (map (\<lambda>r. take (nat K) (sort r)) C)"
    and "last_column (map (\<lambda>r. take (nat K) (sort r)) C) = Inr (kth_values C K)"
proof -
  have nc: "ncols C = m"
    using assms(1,2) by (rule ncols_is_mat)
  show "kmin C K = Inr (map (\<lambda>r. take (nat K) (sort r)) C)"
    using assms(3,4) nc by (simp add: kmin_def)
  have rows: "\<forall>r\<in>set C. length r = m"
    using assms(1) by (simp add: is_mat_def list_all_iff)
  have k: "0 < nat K" "nat K \<le> m"
    using assms(3,4) by auto
  have "is_mat n (nat K) (map (\<lambda>r. take (nat K) (sort r)) C)"
    using assms(1) rows k by (simp add: is_mat_def list_all_iff)
  then have "ncols (map (\<lambda>r. take (nat K) (sort r)) C) = nat K"
    using assms(2) by (rule ncols_is_mat)
  moreover have "map last (map (\<lambda>r. take (nat K) (sort r)) C) = kth_values C K"
    using rows k by (simp add: kth_values_def last_take_sort)
  ultimately show "last_column (map (\<lambda>r. take (nat K) (sort r)) C) = Inr (kth_values C K)"
    using k by (simp add: last_column_def)
qed

lemma SelfTuning_sigma:
  assumes "is_mat n m C" "0 < n" "1 \<le> st_K self" "st_K self \<le> int m"
  shows "st_sigma (fst (SelfTuning_compute_log_affinity self C)) = Some (kth_values C (st_K self))"
  using bandwidth_estimate [OF assms]
  by (simp add: SelfTuning_compute_log_affinity_unfold Let_def split: sum.splits option.splits)

lemma MAGIC_sigma:
  assumes "is_mat n m C" "0 < n" "1 \<le> mg_K self" "mg_K self \<le> int m"
  shows "mg_sigma (fst (MAGIC_compute_affinity self C)) = Some (kth_values C (mg_K self))"
  using bandwidth_estimate [OF assms]
  by (simp add: MAGIC_compute_affinity_unfold Let_def)

lemma kth_values_exact:
  assumes "is_mat n m C" "1 \<le> K" "K \<le> int m" "i < n"
  shows "is_kth_smallest (nat K) (C ! i) v \<longleftrightarrow> v = kth_values C K ! i"
proof -
  have len: "length (C ! i) = m" "i < length C"
    using assms(1,4) by (auto simp: is_mat_def list_all_length)
  have "is_kth_smallest (nat K) (C ! i) (sort (C ! i) ! (nat K - 1))"
    using assms(2,3) len by (intro kth_smallest_sort) auto
  then have "is_kth_smallest (nat K) (C ! i) (kth_values C K ! i)"
    using len by (simp add: kth_values_def)
  then show ?thesis
    using kth_smallest_unique by blast
qed

text \<open>
  C1. With K from 1 to n - 1 and an n by n distance matrix, both affinities set the fitted
  bandwidth so that its entry for row i is the K-th smallest entry of row i of the matrix,
  counted from 1 with duplicates and whatever the zero-diagonal policy left on the diagonal;
  that value is the only one with fewer than K entries of the row below it and at least K
  entries of the row not above it.
\<close>

theorem bandwidth_is_kth_smallest:
  assumes "is_mat n n C" and "st_K st = K" and "mg_K mg = K"
    and "1 \<le> K" and "K \<le> int n - 1"
  shows "\<exists>sg. st_sigma (fst (SelfTuning_compute_log_affinity st C)) = Some sg
            \<and> mg_sigma (fst (MAGIC_compute_affinity mg C)) = Some sg
            \<and> length sg = n
            \<and> (\<forall>i<n. \<forall>v. is_kth_smallest (nat K) (C ! i) v \<longleftrightarrow> v = sg ! i)"
proof -
  have n: "0 < n" and K: "K \<le> int n"
    using assms(4,5) by auto
  have "st_sigma (fst (SelfTuning_compute_log_affinity st C)) = Some (kth_values C K)"
    using SelfTuning_sigma [of n n C st] assms n K by simp
  moreover have "mg_sigma (fst (MAGIC_compute_affinity mg C)) = Some (kth_values C K)"
    using MAGIC_sigma [of n n C mg] assms n K by simp
  moreover have "length (kth_values C K) = n"
    using assms(1) by (simp add: kth_values_def is_mat_def)
  moreover have "\<forall>i<n. \<forall>v. is_kth_smallest (nat K) (C ! i) v \<longleftrightarrow> v = kth_values C K ! i"
    using kth_values_exact [OF assms(1,4) K] by blast
  ultimately show ?thesis
    by blast
qed

theorem bandwidth_is_kth_smallest_witness:
  "is_mat 3 3 [[PInf, Fin 4, Fin 1], [Fin 4, PInf, Fin 9], [Fin 1, Fin 9, PInf]]
   \<and> (1::int) \<le> 2 \<and> (2::int) \<le> int 3 - 1
   \<and> (\<exists>sg. st_sigma (fst (SelfTuning_compute_log_affinity
                \<lparr>st_K = 2, st_normalization_dim = Some Joint, st_sigma = None,
                   st_log_normalization = None\<rparr>
                [[PInf, Fin 4, Fin 1], [Fin 4, PInf, Fin 9], [Fin 1, Fin 9, PInf]])) = Some sg
          \<and> mg_sigma (fst (MAGIC_compute_affinity \<lparr>mg_K = 2, mg_sigma = None\<rparr>
                [[PInf, Fin 4, Fin 1], [Fin 4, PInf, Fin 9], [Fin 1, Fin 9, PInf]])) = Some sg
          \<and> length sg = 3
          \<and> (\<forall>i<3. \<forall>v. is_kth_smallest (nat 2)
                  ([[PInf, Fin 4, Fin 1], [Fin 4, PInf, Fin 9], [Fin 1, Fin 9, PInf]] ! i) v
                \<longleftrightarrow> v = sg ! i))"
  using bandwidth_is_kth_smallest
    [of 3 "[[PInf, Fin 4, Fin 1], [Fin 4, PInf, Fin 9], [Fin 1, Fin 9, PInf]]"
        "\<lparr>st_K = 2, st_normalization_dim = Some Joint, st_sigma = None,
           st_log_normalization = None\<rparr>" 2 "\<lparr>mg_K = 2, mg_sigma = None\<rparr>"]
  by (simp add: is_mat_def)

section \<open>Broadcasting\<close>

lemma is_mat_nth: "is_mat n m A \<Longrightarrow> i < n \<Longrightarrow> length (A ! i) = m"
  by (simp add: is_mat_def list_all_length)

lemma is_mat_length: "is_mat n m A \<Longrightarrow> length A = n"
  by (simp add: is_mat_def)

lemma is_mat_tabulate:
  "is_mat n m (map (\<lambda>i. map (\<lambda>j. g i j) [0..<m]) [0..<n])"
  by (simp add: is_mat_def list_all_iff)

lemma bcast_nth:
  assumes A: "is_mat n m A" and B: "is_mat n' m' B" and pos: "0 < n" "0 < n'"
    and r: "bcast_dim n n' = Some r" and c: "bcast_dim m m' = Some c"
  shows "bcast f A B = Inr (map (\<lambda>i. map (\<lambda>j.
            f (A ! (if n = 1 then 0 else i) ! (if m = 1 then 0 else j))
              (B ! (if n' = 1 then 0 else i) ! (if m' = 1 then 0 else j))) [0..<c]) [0..<r])"
proof -
  have "length A = n" "length B = n'" "ncols A = m" "ncols B = m'"
    using A B pos by (simp_all add: is_mat_length ncols_is_mat)
  then show ?thesis
    using r c by (simp add: bcast_def pick_def)
qed

lemma bcast_same:
  assumes "is_mat n m A" "is_mat n m B" "0 < n"
  shows "bcast f A B = Inr (map (\<lambda>i. map (\<lambda>j. f (A ! i ! j) (B ! i ! j)) [0..<m]) [0..<n])"
proof -
  have "bcast_dim n n = Some n" "bcast_dim m m = Some m"
    by (simp_all add: bcast_dim_def)
  from bcast_nth [OF assms(1,2) assms(3) assms(3) this, of f]
  show ?thesis
    by (auto cong: map_cong)
qed

lemma bcast_column:
  assumes "is_mat n m A" "length v = n" "0 < n" "0 < m"
  shows "bcast f A (map (\<lambda>x. [x]) v) = Inr (map (\<lambda>i. map (\<lambda>j. f (A ! i ! j) (v ! i)) [0..<m]) [0..<n])"
proof -
  have B: "is_mat n 1 (map (\<lambda>x. [x]) v)"
    using assms(2) by (simp add: is_mat_def list_all_iff)
  have "bcast_dim n n = Some n" "bcast_dim m 1 = Some m"
    by (simp_all add: bcast_dim_def)
  from bcast_nth [OF assms(1) B assms(3) assms(3) this, of f]
  show ?thesis
    using assms(2) by (auto cong: map_cong)
qed

lemma bcast_row:
  assumes "is_mat n m A" "length v = m" "0 < n" "0 < m"
  shows "bcast f A [v] = Inr (map (\<lambda>i. map (\<lambda>j. f (A ! i ! j) (v ! j)) [0..<m]) [0..<n])"
proof -
  have B: "is_mat 1 m [v]"
    using assms(2) by (simp add: is_mat_def)
  have "bcast_dim n 1 = Some n" "bcast_dim m m = Some m"
    by (simp_all add: bcast_dim_def)
  from bcast_nth [OF assms(1) B assms(3) _ this, of f]
  show ?thesis
    by (auto cong: map_cong)
qed

lemma bcast_scalar:
  assumes "is_mat n m A" "0 < n" "0 < m"
  shows "bcast f A [[b]] = Inr (map (\<lambda>i. map (\<lambda>j. f (A ! i ! j) b) [0..<m]) [0..<n])"
proof -
  have B: "is_mat 1 1 [[b]]"
    by (simp add: is_mat_def)
  have "bcast_dim n 1 = Some n" "bcast_dim m 1 = Some m"
    by (simp_all add: bcast_dim_def)
  from bcast_nth [OF assms(1) B assms(2) _ this, of f]
  show ?thesis
    by (auto cong: map_cong)
qed

lemma bcast_outer:
  assumes "length v = n" "0 < n"
  shows "bcast f (map (\<lambda>x. [x]) v) [v] = Inr (map (\<lambda>i. map (\<lambda>j. f (v ! i) (v ! j)) [0..<n]) [0..<n])"
proof -
  have A: "is_mat n 1 (map (\<lambda>x. [x]) v)"
    using assms(1) by (simp add: is_mat_def list_all_iff)
  have B: "is_mat 1 n [v]"
    using assms(1) by (simp add: is_mat_def)
  have "bcast_dim n 1 = Some n" "bcast_dim 1 n = Some n"
    by (simp_all add: bcast_dim_def)
  from bcast_nth [OF A B assms(2) _ this, of f]
  show ?thesis
    using assms by (auto cong: map_cong)
qed

lemma transpose_wrap_vectors:
  assumes "v \<noteq> []"
  shows "matrix_transpose (wrap_vectors v) = [v]"
proof -
  have "transpose (map (\<lambda>x. [x]) v) = map (\<lambda>i. map (\<lambda>j. map (\<lambda>x. [x]) v ! j ! i) [0..<length (map (\<lambda>x. [x]) v)]) [0..<1]"
    using assms by (intro transpose_rectangle) auto
  also have "\<dots> = [map (\<lambda>j. v ! j) [0..<length v]]"
    by (auto cong: map_cong)
  finally show ?thesis
    by (simp add: matrix_transpose_def wrap_vectors_def map_nth)
qed

lemma transpose_square:
  assumes "is_mat n m A" "0 < n"
  shows "matrix_transpose A = map (\<lambda>i. map (\<lambda>j. A ! j ! i) [0..<n]) [0..<m]"
proof -
  have "transpose A = map (\<lambda>i. map (\<lambda>j. A ! j ! i) [0..<length A]) [0..<m]"
    using assms by (intro transpose_rectangle) (auto simp: is_mat_def list_all_length)
  then show ?thesis
    using assms(1) by (simp add: matrix_transpose_def is_mat_def)
qed

section \<open>The self-tuning kernel\<close>

lemma is_mat_neg: "is_mat n m A \<Longrightarrow> is_mat n m (neg A)"
  by (simp add: is_mat_def neg_def list_all_iff)

lemma neg_nth: "is_mat n m A \<Longrightarrow> i < n \<Longrightarrow> j < m \<Longrightarrow> neg A ! i ! j = fl_neg (A ! i ! j)"
  by (simp add: neg_def is_mat_def list_all_length)

lemma log_SelfTuning_tabulate:
  assumes "is_mat n n C" "length sigma = n"
  shows "log_SelfTuning C sigma
     = Inr (map (\<lambda>i. map (\<lambda>j. fl_div (fl_neg (C ! i ! j)) (fl_mul (sigma ! i) (sigma ! j)))
              [0..<n]) [0..<n])"
proof (cases "n = 0")
  case True
  then have "C = []" "sigma = []"
    using assms by (simp_all add: is_mat_def)
  then show ?thesis
    using True
    by (simp add: log_SelfTuning_def wrap_vectors_def matrix_transpose_def neg_def bcast_def
        bcast_dim_def ncols_def)
next
  case False
  then have n: "0 < n" by simp
  then have ne: "sigma \<noteq> []"
    using assms(2) by auto
  let ?D = "map (\<lambda>i. map (\<lambda>j. fl_mul (sigma ! i) (sigma ! j)) [0..<n]) [0..<n]"
  have D: "bcast fl_mul (wrap_vectors sigma) (matrix_transpose (wrap_vectors sigma)) = Inr ?D"
    using bcast_outer [OF assms(2) n, of fl_mul]
    by (simp add: transpose_wrap_vectors [OF ne]) (simp add: wrap_vectors_def)
  have "bcast fl_div (neg C) ?D
     = Inr (map (\<lambda>i. map (\<lambda>j. fl_div (neg C ! i ! j) (?D ! i ! j)) [0..<n]) [0..<n])"
    by (rule bcast_same [OF is_mat_neg [OF assms(1)] is_mat_tabulate n])
  also have "\<dots> = Inr (map (\<lambda>i. map (\<lambda>j. fl_div (fl_neg (C ! i ! j)) (fl_mul (sigma ! i) (sigma ! j)))
              [0..<n]) [0..<n])"
    using assms(1) by (simp add: neg_nth)
  finally show ?thesis
    using D by (simp add: log_SelfTuning_def)
qed

text \<open>
  C2. With an n by n distance matrix and n positive bandwidths, the self-tuning kernel
  returns the matrix whose entry (i, j) is \<^verbatim>\<open>-C[i,j] / (sigma_i * sigma_j)\<close>; where the
  distance is finite its exponential is \<^verbatim>\<open>exp(-C[i,j] / (sigma_i * sigma_j))\<close>, and the
  entries (i, j) and (j, i) agree wherever those of the distance matrix do.
\<close>

theorem log_SelfTuning_formula:
  assumes "is_mat n n C" and "length ss = n" and "\<forall>s\<in>set ss. 0 < s"
  shows "\<exists>L. log_SelfTuning C (map Fin ss) = Inr L \<and> is_mat n n L
     \<and> (\<forall>i<n. \<forall>j<n.
          L ! i ! j = fl_div (fl_neg (C ! i ! j)) (Fin (ss ! i * ss ! j))
        \<and> (\<forall>c. C ! i ! j = Fin c \<longrightarrow>
              L ! i ! j = Fin (- c / (ss ! i * ss ! j))
            \<and> fl_exp (L ! i ! j) = Fin (exp (- c / (ss ! i * ss ! j))))
        \<and> (C ! i ! j = C ! j ! i \<longrightarrow> L ! i ! j = L ! j ! i))"
proof -
  define L where "L = map (\<lambda>i. map (\<lambda>j. fl_div (fl_neg (C ! i ! j))
      (fl_mul (map Fin ss ! i) (map Fin ss ! j))) [0..<n]) [0..<n]"
  have run: "log_SelfTuning C (map Fin ss) = Inr L"
    unfolding L_def using assms(1,2) by (intro log_SelfTuning_tabulate) simp_all
  have shape: "is_mat n n L"
    unfolding L_def by (rule is_mat_tabulate)
  have pos: "ss ! i * ss ! j \<noteq> 0" if "i < n" "j < n" for i j
    using that assms(2,3) by (metis mult_eq_0_iff nth_mem order_less_irrefl)
  have entry: "L ! i ! j = fl_div (fl_neg (C ! i ! j)) (Fin (ss ! i * ss ! j))"
    if "i < n" "j < n" for i j
    using that assms(2) by (simp add: L_def)
  have fin: "L ! i ! j = Fin (- c / (ss ! i * ss ! j))
      \<and> fl_exp (L ! i ! j) = Fin (exp (- c / (ss ! i * ss ! j)))"
    if "i < n" "j < n" "C ! i ! j = Fin c" for i j c
    using that(3) pos [OF that(1,2)] by (simp add: entry [OF that(1,2)])
  have sym: "L ! i ! j = L ! j ! i" if "i < n" "j < n" "C ! i ! j = C ! j ! i" for i j
    using that(3) by (simp add: entry [OF that(1,2)] entry [OF that(2,1)] mult.commute)
  show ?thesis
    using run shape entry fin sym by blast
qed

theorem log_SelfTuning_formula_witness:
  "is_mat 2 2 [[PInf, Fin 4], [Fin 4, PInf]] \<and> length [2, 2 :: real] = 2
   \<and> (0::real) < 2
   \<and> (\<exists>L. log_SelfTuning [[PInf, Fin 4], [Fin 4, PInf]] (map Fin [2, 2]) = Inr L
        \<and> is_mat 2 2 L
        \<and> (\<forall>i<2. \<forall>j<2.
             L ! i ! j = fl_div (fl_neg ([[PInf, Fin 4], [Fin 4, PInf]] ! i ! j))
                           (Fin ([2, 2] ! i * [2, 2] ! j))
           \<and> (\<forall>c. [[PInf, Fin 4], [Fin 4, PInf]] ! i ! j = Fin c \<longrightarrow>
                 L ! i ! j = Fin (- c / ([2, 2] ! i * [2, 2] ! j))
               \<and> fl_exp (L ! i ! j) = Fin (exp (- c / ([2, 2] ! i * [2, 2] ! j))))
           \<and> ([[PInf, Fin 4], [Fin 4, PInf]] ! i ! j = [[PInf, Fin 4], [Fin 4, PInf]] ! j ! i
                \<longrightarrow> L ! i ! j = L ! j ! i)))"
  using log_SelfTuning_formula [of 2 "[[PInf, Fin 4], [Fin 4, PInf]]" "[2, 2]"]
  by (simp add: is_mat_def)

section \<open>The diffusion affinity\<close>

lemma kernel_step_tabulate:
  assumes "is_mat n m C"
  shows "kernel_step C sigma
     = map (\<lambda>i. map (\<lambda>j. fl_exp (fl_div (fl_neg (C ! i ! j)) (sigma ! i))) [0..<m]) [0..<n]"
  using assms by (simp add: kernel_step_def is_mat_def list_all_length)

lemma symmetrize_step_tabulate:
  assumes "is_mat n m P"
  shows "symmetrize_step P
     = map (\<lambda>i. map (\<lambda>j. fl_div (fl_add (P ! i ! j) (P ! j ! i)) (Fin 2)) [0..<m]) [0..<n]"
  using assms by (simp add: symmetrize_step_def is_mat_def list_all_length)

lemma row_normalize_step_tabulate:
  assumes "is_mat n m P"
  shows "row_normalize_step P
     = map (\<lambda>i. map (\<lambda>j. fl_div (P ! i ! j) (fl_sum (P ! i))) [0..<m]) [0..<n]"
  using assms by (simp add: row_normalize_step_def is_mat_def list_all_length)

lemma is_mat_kernel_step: "is_mat n m C \<Longrightarrow> is_mat n m (kernel_step C sigma)"
  by (simp add: kernel_step_tabulate is_mat_tabulate)

lemma is_mat_symmetrize_step: "is_mat n m P \<Longrightarrow> is_mat n m (symmetrize_step P)"
  by (simp add: symmetrize_step_tabulate is_mat_tabulate)

lemma is_mat_row_normalize_step: "is_mat n m P \<Longrightarrow> is_mat n m (row_normalize_step P)"
  by (simp add: row_normalize_step_tabulate is_mat_tabulate)

lemma exp_log_MAGIC:
  assumes "is_mat n n C" "length sigma = n" "0 < n"
  shows "log_MAGIC C sigma
     = Inr (map (\<lambda>i. map (\<lambda>j. fl_div (fl_neg (C ! i ! j)) (sigma ! i)) [0..<n]) [0..<n])"
proof -
  have "bcast fl_div (neg C) (map (\<lambda>x. [x]) sigma)
     = Inr (map (\<lambda>i. map (\<lambda>j. fl_div (neg C ! i ! j) (sigma ! i)) [0..<n]) [0..<n])"
    by (rule bcast_column [OF is_mat_neg [OF assms(1)] assms(2,3,3)])
  then show ?thesis
    using assms(1) by (simp add: log_MAGIC_def wrap_vectors_def neg_nth)
qed

lemma exp_mat_tabulate:
  "exp_mat (map (\<lambda>i. map (\<lambda>j. g i j) [0..<m]) [0..<n])
     = map (\<lambda>i. map (\<lambda>j. fl_exp (g i j)) [0..<m]) [0..<n]"
  by (simp add: exp_mat_def)

lemma symmetrize_code:
  assumes "is_mat n n P" "0 < n"
  shows "bcast fl_add P (matrix_transpose P)
     = Inr (map (\<lambda>i. map (\<lambda>j. fl_add (P ! i ! j) (P ! j ! i)) [0..<n]) [0..<n])"
proof -
  have T: "matrix_transpose P = map (\<lambda>i. map (\<lambda>j. P ! j ! i) [0..<n]) [0..<n]"
    by (rule transpose_square [OF assms])
  have "bcast fl_add P (matrix_transpose P)
     = Inr (map (\<lambda>i. map (\<lambda>j. fl_add (P ! i ! j) (matrix_transpose P ! i ! j)) [0..<n]) [0..<n])"
    unfolding T by (rule bcast_same [OF assms(1) is_mat_tabulate assms(2)])
  then show ?thesis
    by (simp add: T)
qed

lemma row_normalize_code:
  assumes "is_mat n n S" "0 < n"
  shows "bcast fl_div S (sum_red S) = Inr (row_normalize_step S)"
proof -
  have "bcast fl_div S (map (\<lambda>x. [x]) (map fl_sum S))
     = Inr (map (\<lambda>i. map (\<lambda>j. fl_div (S ! i ! j) (map fl_sum S ! i)) [0..<n]) [0..<n])"
    using assms by (intro bcast_column) (simp_all add: is_mat_def)
  moreover have "sum_red S = map (\<lambda>x. [x]) (map fl_sum S)"
    by (simp add: sum_red_def)
  ultimately show ?thesis
    using assms(1) by (simp add: row_normalize_step_tabulate [OF assms(1)] is_mat_def)
qed

lemma MAGIC_steps:
  assumes "is_mat n n C" "1 \<le> mg_K self" "mg_K self \<le> int n"
  shows "MAGIC_compute_affinity self C
     = (self\<lparr>mg_sigma := Some (kth_values C (mg_K self))\<rparr>,
        Inr (row_normalize_step (symmetrize_step (kernel_step C (kth_values C (mg_K self))))))"
proof -
  let ?sg = "kth_values C (mg_K self)"
  have n: "0 < n"
    using assms(2,3) by simp
  have len: "length ?sg = n"
    using assms(1) by (simp add: kth_values_def is_mat_def)
  have P: "is_mat n n (kernel_step C ?sg)"
    by (rule is_mat_kernel_step [OF assms(1)])
  have S: "is_mat n n (symmetrize_step (kernel_step C ?sg))"
    by (rule is_mat_symmetrize_step [OF P])
  have 1: "log_MAGIC C ?sg
     = Inr (map (\<lambda>i. map (\<lambda>j. fl_div (fl_neg (C ! i ! j)) (?sg ! i)) [0..<n]) [0..<n])"
    by (rule exp_log_MAGIC [OF assms(1) len n])
  have 2: "exp_mat (map (\<lambda>i. map (\<lambda>j. fl_div (fl_neg (C ! i ! j)) (?sg ! i)) [0..<n]) [0..<n])
     = kernel_step C ?sg"
    by (simp add: exp_mat_tabulate kernel_step_tabulate [OF assms(1)])
  have 3: "bcast fl_add (kernel_step C ?sg) (matrix_transpose (kernel_step C ?sg))
     = Inr (map (\<lambda>i. map (\<lambda>j. fl_add (kernel_step C ?sg ! i ! j) (kernel_step C ?sg ! j ! i))
              [0..<n]) [0..<n])"
    by (rule symmetrize_code [OF P n])
  have 4: "div_scalar (map (\<lambda>i. map (\<lambda>j. fl_add (kernel_step C ?sg ! i ! j)
              (kernel_step C ?sg ! j ! i)) [0..<n]) [0..<n]) 2
     = symmetrize_step (kernel_step C ?sg)"
    by (simp add: div_scalar_def symmetrize_step_tabulate [OF P])
  have 5: "bcast fl_div (symmetrize_step (kernel_step C ?sg))
      (sum_red (symmetrize_step (kernel_step C ?sg)))
     = Inr (row_normalize_step (symmetrize_step (kernel_step C ?sg)))"
    by (rule row_normalize_code [OF S n])
  show ?thesis
    using bandwidth_estimate [OF assms(1) n assms(2,3)]
    by (simp add: MAGIC_compute_affinity_unfold Let_def 1 2 3 4 5)
qed

text \<open>
  C3. With K from 1 to n on an n by n distance matrix and all bandwidths positive, the
  diffusion affinity stores the bandwidth and returns the composition of the three reference
  steps in their order: the kernel with the bandwidth of the row only, whose entry for a
  finite distance is \<^verbatim>\<open>exp(-C[i,j] / sigma_i)\<close>, then the average with the transpose, then
  the division of every row by its sum.
\<close>

theorem MAGIC_three_steps:
  assumes "is_mat n n C" and "1 \<le> mg_K self" and "mg_K self \<le> int n"
    and "kth_values C (mg_K self) = map Fin ss" and "\<forall>s\<in>set ss. 0 < s"
  shows "MAGIC_compute_affinity self C
     = (self\<lparr>mg_sigma := Some (map Fin ss)\<rparr>,
        Inr (row_normalize_step (symmetrize_step (kernel_step C (map Fin ss)))))
     \<and> (\<forall>i<n. \<forall>j<n. \<forall>c. C ! i ! j = Fin c \<longrightarrow>
            kernel_step C (map Fin ss) ! i ! j = Fin (exp (- c / ss ! i)))"
proof -
  have len: "length ss = n"
    using assms(1,4) by (metis is_mat_length kth_values_def length_map)
  have "kernel_step C (map Fin ss) ! i ! j = Fin (exp (- c / ss ! i))"
    if "i < n" "j < n" "C ! i ! j = Fin c" for i j c
  proof -
    have "ss ! i \<noteq> 0"
      using that(1) len assms(5) by (metis nth_mem order_less_irrefl)
    then show ?thesis
      using that len by (simp add: kernel_step_tabulate [OF assms(1)])
  qed
  then show ?thesis
    using MAGIC_steps [OF assms(1-3)] assms(4) by simp
qed

theorem MAGIC_three_steps_witness:
  "is_mat 3 3 [[PInf, Fin 1, Fin 1], [Fin 1, PInf, Fin 2], [Fin 1, Fin 2, PInf]]
   \<and> (1::int) \<le> 1 \<and> (1::int) \<le> int 3
   \<and> kth_values [[PInf, Fin 1, Fin 1], [Fin 1, PInf, Fin 2], [Fin 1, Fin 2, PInf]] 1
       = map Fin [1, 1, 1]
   \<and> (0::real) < 1
   \<and> MAGIC_compute_affinity \<lparr>mg_K = 1, mg_sigma = None\<rparr>
        [[PInf, Fin 1, Fin 1], [Fin 1, PInf, Fin 2], [Fin 1, Fin 2, PInf]]
     = (\<lparr>mg_K = 1, mg_sigma = Some (map Fin [1, 1, 1])\<rparr>,
        Inr (row_normalize_step (symmetrize_step (kernel_step
          [[PInf, Fin 1, Fin 1], [Fin 1, PInf, Fin 2], [Fin 1, Fin 2, PInf]] (map Fin [1, 1, 1])))))"
  using MAGIC_three_steps [of 3 "[[PInf, Fin 1, Fin 1], [Fin 1, PInf, Fin 2], [Fin 1, Fin 2, PInf]]"
      "\<lparr>mg_K = 1, mg_sigma = None\<rparr>" "[1, 1, 1]"]
  by (simp add: is_mat_def kth_values_def)

section \<open>Sums and row normalisation\<close>

lemma all_less_3: "(\<forall>i<3. Q i) \<longleftrightarrow> Q 0 \<and> Q 1 \<and> Q (2::nat)"
proof -
  have "i < 3 \<longleftrightarrow> i = 0 \<or> i = 1 \<or> i = 2" for i :: nat
    by auto
  then show ?thesis
    by auto
qed

lemma fl_add_Fin_iff: "fl_add a b = Fin r \<longleftrightarrow> (\<exists>x y. a = Fin x \<and> b = Fin y \<and> r = x + y)"
  by (cases a; cases b) auto

lemma fl_sum_Nil: "fl_sum [] = Fin 0"
  by (simp add: fl_sum_def)

lemma fl_sum_Cons: "fl_sum (x # xs) = fl_add x (fl_sum xs)"
  by (simp add: fl_sum_def)

lemma fl_sum_Fin: "fl_sum (map Fin rs) = Fin (sum_list rs)"
  by (induction rs) (simp_all add: fl_sum_Nil fl_sum_Cons)

lemma fl_sum_finite:
  assumes "fl_sum xs = Fin r"
  shows "\<exists>rs. xs = map Fin rs \<and> sum_list rs = r"
  using assms
proof (induction xs arbitrary: r)
  case Nil
  then show ?case
    by (simp add: fl_sum_Nil)
next
  case (Cons x xs)
  then obtain a b where ab: "x = Fin a" "fl_sum xs = Fin b" "r = a + b"
    by (auto simp: fl_sum_Cons fl_add_Fin_iff)
  from Cons.IH [OF ab(2)] obtain rs where "xs = map Fin rs" "sum_list rs = b"
    by blast
  with ab show ?case
    by (intro exI [of _ "a # rs"]) simp
qed

lemma sum_list_divide: "sum_list (map (\<lambda>x. x / r) rs) = sum_list rs / (r::real)"
  by (induction rs) (simp_all add: add_divide_distrib)

lemma row_normalize_row:
  assumes "is_mat n m S" "i < n"
  shows "row_normalize_step S ! i = map (\<lambda>x. fl_div x (fl_sum (S ! i))) (S ! i)"
proof -
  have "length (S ! i) = m"
    using assms by (rule is_mat_nth)
  then have "map (\<lambda>x. fl_div x (fl_sum (S ! i))) (S ! i)
      = map (\<lambda>j. fl_div (S ! i ! j) (fl_sum (S ! i))) [0..<m]"
    by (intro nth_equalityI) simp_all
  then show ?thesis
    using assms by (simp add: row_normalize_step_tabulate [OF assms(1)])
qed

lemma normalized_row_sum:
  assumes "fl_sum xs = Fin r" "0 < r"
  shows "fl_sum (map (\<lambda>x. fl_div x (fl_sum xs)) xs) = Fin 1"
proof -
  obtain rs where rs: "xs = map Fin rs" "sum_list rs = r"
    using fl_sum_finite [OF assms(1)] by blast
  have "map (\<lambda>x. fl_div x (fl_sum xs)) xs = map Fin (map (\<lambda>x. x / r) rs)"
    using assms by (simp add: rs(1) comp_def)
  then have "fl_sum (map (\<lambda>x. fl_div x (fl_sum xs)) xs) = Fin (sum_list (map (\<lambda>x. x / r) rs))"
    by (simp only: fl_sum_Fin)
  then show ?thesis
    using assms(2) rs(2) by (simp add: sum_list_divide)
qed

lemma MAGIC_example:
  "MAGIC_compute_affinity \<lparr>mg_K = 1, mg_sigma = None\<rparr>
      [[PInf, Fin 1, Fin 1], [Fin 1, PInf, Fin 2], [Fin 1, Fin 2, PInf]]
   = (\<lparr>mg_K = 1, mg_sigma = Some [Fin 1, Fin 1, Fin 1]\<rparr>,
      Inr [[Fin 0, Fin (1 / 2), Fin (1 / 2)],
           [Fin (exp (- 1) / (exp (- 1) + exp (- 2))), Fin 0,
            Fin (exp (- 2) / (exp (- 1) + exp (- 2)))],
           [Fin (exp (- 1) / (exp (- 1) + exp (- 2))),
            Fin (exp (- 2) / (exp (- 1) + exp (- 2))), Fin 0]])"
proof -
  have "exp (- 1) + exp (- 2) \<noteq> (0::real)"
    by (metis add_pos_pos exp_gt_zero less_irrefl)
  then show ?thesis
    by (simp add: MAGIC_compute_affinity_unfold kmin_def ncols_def last_column_def log_MAGIC_def
        bcast_def bcast_dim_def wrap_vectors_def neg_def pick_def exp_mat_def
        matrix_transpose_def div_scalar_def sum_red_def fl_sum_def inf_of_sign_def upt_rec)
qed

lemma exp_ratio_not_half: "exp (- 1) / (exp (- 1) + exp (- 2)) \<noteq> (1 / 2 :: real)"
proof
  assume h: "exp (- 1) / (exp (- 1) + exp (- 2)) = (1 / 2 :: real)"
  have pos: "exp (- 1) + exp (- 2) > (0::real)"
    by (simp add: add_pos_pos)
  from h pos have "2 * exp (- 1) = exp (- 1) + exp (- 2 :: real)"
    by (simp add: field_simps)
  then have "exp (- 1 :: real) = exp (- 2)"
    by simp
  then show False
    by simp
qed

lemma MAGIC_example_rows:
  "fl_sum [Fin 0, Fin (1 / 2), Fin (1 / 2)] = Fin 1"
  "fl_sum [Fin (exp (- 1) / (exp (- 1) + exp (- 2))), Fin 0,
           Fin (exp (- 2) / (exp (- 1) + exp (- 2)))] = Fin 1"
  "fl_sum [Fin (exp (- 1) / (exp (- 1) + exp (- 2))),
           Fin (exp (- 2) / (exp (- 1) + exp (- 2))), Fin 0] = Fin 1"
proof -
  have "exp (- 1) + exp (- 2) \<noteq> (0::real)"
    by (metis add_pos_pos exp_gt_zero less_irrefl)
  then have "exp (- 1) / (exp (- 1) + exp (- 2)) + exp (- 2) / (exp (- 1) + exp (- 2)) = (1::real)"
    by (simp add: add_divide_distrib [symmetric])
  then show "fl_sum [Fin 0, Fin (1 / 2), Fin (1 / 2)] = Fin 1"
    "fl_sum [Fin (exp (- 1) / (exp (- 1) + exp (- 2))), Fin 0,
           Fin (exp (- 2) / (exp (- 1) + exp (- 2)))] = Fin 1"
    "fl_sum [Fin (exp (- 1) / (exp (- 1) + exp (- 2))),
           Fin (exp (- 2) / (exp (- 1) + exp (- 2))), Fin 0] = Fin 1"
    by (simp_all add: fl_sum_def)
qed

lemma MAGIC_example_not_symmetric:
  "matrix_transpose
      [[Fin 0, Fin (1 / 2), Fin (1 / 2)],
       [Fin (exp (- 1) / (exp (- 1) + exp (- 2))), Fin 0,
        Fin (exp (- 2) / (exp (- 1) + exp (- 2)))],
       [Fin (exp (- 1) / (exp (- 1) + exp (- 2))),
        Fin (exp (- 2) / (exp (- 1) + exp (- 2))), Fin 0]]
   \<noteq> [[Fin 0, Fin (1 / 2), Fin (1 / 2)],
       [Fin (exp (- 1) / (exp (- 1) + exp (- 2))), Fin 0,
        Fin (exp (- 2) / (exp (- 1) + exp (- 2)))],
       [Fin (exp (- 1) / (exp (- 1) + exp (- 2))),
        Fin (exp (- 2) / (exp (- 1) + exp (- 2))), Fin 0]]"
  using exp_ratio_not_half by (simp add: matrix_transpose_def)

text \<open>
  C4. When every row of the symmetrised kernel has a finite positive sum, the diffusion
  affinity returns a matrix whose rows each sum to 1. The result need not be symmetric:
  on three points at pairwise distances 1, 1 and 2 with K = 1 the rows sum to 1 and the
  matrix differs from its transpose.
\<close>

theorem MAGIC_row_stochastic:
  assumes "is_mat n n C" and "1 \<le> mg_K self" and "mg_K self \<le> int n"
    and "\<forall>i<n. \<exists>r>0.
           fl_sum (symmetrize_step (kernel_step C (kth_values C (mg_K self))) ! i) = Fin r"
  shows "(\<exists>P. snd (MAGIC_compute_affinity self C) = Inr P \<and> is_mat n n P
            \<and> (\<forall>i<n. fl_sum (P ! i) = Fin 1))
       \<and> (\<exists>C' self' P'. is_mat 3 3 C' \<and> (\<forall>i<3. \<forall>j<3. C' ! i ! j = C' ! j ! i)
            \<and> snd (MAGIC_compute_affinity self' C') = Inr P'
            \<and> (\<forall>i<3. fl_sum (P' ! i) = Fin 1)
            \<and> matrix_transpose P' \<noteq> P')"
proof
  define S where "S = symmetrize_step (kernel_step C (kth_values C (mg_K self)))"
  have S: "is_mat n n S"
    unfolding S_def by (intro is_mat_symmetrize_step is_mat_kernel_step assms(1))
  have run: "snd (MAGIC_compute_affinity self C) = Inr (row_normalize_step S)"
    unfolding S_def by (simp add: MAGIC_steps [OF assms(1-3)])
  have "fl_sum (row_normalize_step S ! i) = Fin 1" if i: "i < n" for i
  proof -
    obtain r where r: "0 < r" "fl_sum (S ! i) = Fin r"
      using assms(4) i unfolding S_def by blast
    show ?thesis
      unfolding row_normalize_row [OF S i] by (rule normalized_row_sum [OF r(2,1)])
  qed
  then show "\<exists>P. snd (MAGIC_compute_affinity self C) = Inr P \<and> is_mat n n P
            \<and> (\<forall>i<n. fl_sum (P ! i) = Fin 1)"
    using run is_mat_row_normalize_step [OF S] by blast
next
  let ?C = "[[PInf, Fin 1, Fin 1], [Fin 1, PInf, Fin 2], [Fin 1, Fin 2, PInf]]"
  let ?P = "[[Fin 0, Fin (1 / 2), Fin (1 / 2)],
       [Fin (exp (- 1) / (exp (- 1) + exp (- 2))), Fin 0,
        Fin (exp (- 2) / (exp (- 1) + exp (- 2)))],
       [Fin (exp (- 1) / (exp (- 1) + exp (- 2))),
        Fin (exp (- 2) / (exp (- 1) + exp (- 2))), Fin 0]]"
  have "is_mat 3 3 ?C"
    by (simp add: is_mat_def)
  moreover have "\<forall>i<3. \<forall>j<3. ?C ! i ! j = ?C ! j ! i"
    by (simp add: all_less_3)
  moreover have "snd (MAGIC_compute_affinity \<lparr>mg_K = 1, mg_sigma = None\<rparr> ?C) = Inr ?P"
    by (simp only: MAGIC_example snd_conv)
  moreover have "\<forall>i<3. fl_sum (?P ! i) = Fin 1"
    by (simp add: all_less_3 MAGIC_example_rows)
  ultimately show "\<exists>C' self' P'. is_mat 3 3 C' \<and> (\<forall>i<3. \<forall>j<3. C' ! i ! j = C' ! j ! i)
            \<and> snd (MAGIC_compute_affinity self' C') = Inr P'
            \<and> (\<forall>i<3. fl_sum (P' ! i) = Fin 1)
            \<and> matrix_transpose P' \<noteq> P'"
    using MAGIC_example_not_symmetric by blast
qed

lemma MAGIC_example_symmetrized:
  "symmetrize_step (kernel_step [[PInf, Fin 1, Fin 1], [Fin 1, PInf, Fin 2], [Fin 1, Fin 2, PInf]]
      (kth_values [[PInf, Fin 1, Fin 1], [Fin 1, PInf, Fin 2], [Fin 1, Fin 2, PInf]] 1))
   = [[Fin 0, Fin (exp (- 1)), Fin (exp (- 1))],
      [Fin (exp (- 1)), Fin 0, Fin (exp (- 2))],
      [Fin (exp (- 1)), Fin (exp (- 2)), Fin 0]]"
  by (simp add: symmetrize_step_def kernel_step_def kth_values_def upt_rec)

theorem MAGIC_row_stochastic_witness:
  "is_mat 3 3 [[PInf, Fin 1, Fin 1], [Fin 1, PInf, Fin 2], [Fin 1, Fin 2, PInf]]
   \<and> (1::int) \<le> 1 \<and> (1::int) \<le> int 3
   \<and> symmetrize_step (kernel_step
          [[PInf, Fin 1, Fin 1], [Fin 1, PInf, Fin 2], [Fin 1, Fin 2, PInf]]
          (kth_values [[PInf, Fin 1, Fin 1], [Fin 1, PInf, Fin 2], [Fin 1, Fin 2, PInf]] 1))
       = [[Fin 0, Fin (exp (- 1)), Fin (exp (- 1))],
          [Fin (exp (- 1)), Fin 0, Fin (exp (- 2))],
          [Fin (exp (- 1)), Fin (exp (- 2)), Fin 0]]
   \<and> (\<exists>P. snd (MAGIC_compute_affinity \<lparr>mg_K = 1, mg_sigma = None\<rparr>
          [[PInf, Fin 1, Fin 1], [Fin 1, PInf, Fin 2], [Fin 1, Fin 2, PInf]]) = Inr P
        \<and> is_mat 3 3 P \<and> (\<forall>i<3. fl_sum (P ! i) = Fin 1))"
proof -
  have pos: "0 < exp (- 1) + exp (- 1 :: real)" "0 < exp (- 1) + exp (- 2 :: real)"
    by (simp_all add: add_pos_pos)
  have rows: "\<forall>i<3. \<exists>r>0. fl_sum (symmetrize_step (kernel_step
          [[PInf, Fin 1, Fin 1], [Fin 1, PInf, Fin 2], [Fin 1, Fin 2, PInf]]
          (kth_values [[PInf, Fin 1, Fin 1], [Fin 1, PInf, Fin 2], [Fin 1, Fin 2, PInf]] 1)) ! i)
        = Fin r"
    using pos by (simp add: MAGIC_example_symmetrized all_less_3 fl_sum_def)
  have shape: "is_mat 3 3 [[PInf, Fin 1, Fin 1], [Fin 1, PInf, Fin 2], [Fin 1, Fin 2, PInf]]"
    by (simp add: is_mat_def)
  show ?thesis
    using MAGIC_row_stochastic [of 3 "[[PInf, Fin 1, Fin 1], [Fin 1, PInf, Fin 2], [Fin 1, Fin 2, PInf]]"
        "\<lparr>mg_K = 1, mg_sigma = None\<rparr>"] rows shape
    by (simp add: MAGIC_example_symmetrized)
qed

section \<open>The self-tuning affinity\<close>

lemma self_tuning_step_tabulate:
  assumes "is_mat n m C"
  shows "self_tuning_step C sigma
     = map (\<lambda>i. map (\<lambda>j. fl_div (fl_neg (C ! i ! j)) (fl_mul (sigma ! i) (sigma ! j)))
         [0..<m]) [0..<n]"
  using assms by (simp add: self_tuning_step_def is_mat_def list_all_length)

lemma is_mat_self_tuning_step: "is_mat n m C \<Longrightarrow> is_mat n m (self_tuning_step C sigma)"
  by (simp add: self_tuning_step_tabulate is_mat_tabulate)

lemma log_SelfTuning_step:
  assumes "is_mat n n C" "length sigma = n"
  shows "log_SelfTuning C sigma = Inr (self_tuning_step C sigma)"
  by (simp only: log_SelfTuning_tabulate [OF assms] self_tuning_step_tabulate [OF assms(1)])

lemma column_nth:
  assumes "is_mat n m L"
  shows "map (\<lambda>r. r ! j) L = map (\<lambda>i. L ! i ! j) [0..<n]"
  using assms by (intro nth_equalityI) (simp_all add: is_mat_def)

lemma subtract_norm_term:
  assumes L: "is_mat n n L" and n: "0 < n"
  shows "bcast fl_sub L (logsumexp_red L d)
     = Inr (map (\<lambda>i. map (\<lambda>j. fl_sub (L ! i ! j) (norm_term L d i j)) [0..<n]) [0..<n])"
proof (cases d)
  case Axis0
  have T: "transpose L = map (\<lambda>i. map (\<lambda>j. L ! j ! i) [0..<n]) [0..<n]"
    using transpose_square [OF L n] by (simp add: matrix_transpose_def)
  have "bcast fl_sub L [map fl_logsumexp (transpose L)]
     = Inr (map (\<lambda>i. map (\<lambda>j. fl_sub (L ! i ! j) (map fl_logsumexp (transpose L) ! j))
         [0..<n]) [0..<n])"
    by (rule bcast_row [OF L _ n n]) (simp add: T)
  then show ?thesis
    using Axis0 by (simp add: logsumexp_red_def norm_term_def T column_nth [OF L])
next
  case Axis1
  have "bcast fl_sub L (map (\<lambda>x. [x]) (map fl_logsumexp L))
     = Inr (map (\<lambda>i. map (\<lambda>j. fl_sub (L ! i ! j) (map fl_logsumexp L ! i)) [0..<n]) [0..<n])"
    using L by (intro bcast_column [OF L _ n n]) (simp add: is_mat_def)
  then show ?thesis
    using Axis1 L by (simp add: logsumexp_red_def norm_term_def is_mat_def comp_def)
next
  case Joint
  then show ?thesis
    using bcast_scalar [OF L n n, of fl_sub "fl_logsumexp (concat L)"]
    by (simp add: logsumexp_red_def norm_term_def)
qed

lemma SelfTuning_steps:
  assumes "is_mat n n C" "1 \<le> st_K self" "st_K self \<le> int n"
  shows "SelfTuning_compute_log_affinity self C
     = (let sg = kth_values C (st_K self); L = self_tuning_step C sg
        in case st_normalization_dim self of
             None \<Rightarrow> (self\<lparr>st_sigma := Some sg\<rparr>, Inr L)
           | Some d \<Rightarrow>
               (self\<lparr>st_sigma := Some sg, st_log_normalization := Some (logsumexp_red L d)\<rparr>,
                Inr (map (\<lambda>i. map (\<lambda>j. fl_sub (L ! i ! j) (norm_term L d i j)) [0..<n]) [0..<n])))"
proof -
  let ?sg = "kth_values C (st_K self)"
  have n: "0 < n"
    using assms(2,3) by simp
  have len: "length ?sg = n"
    using assms(1) by (simp add: kth_values_def is_mat_def)
  have raw: "log_SelfTuning C ?sg = Inr (self_tuning_step C ?sg)"
    by (rule log_SelfTuning_step [OF assms(1) len])
  have L: "is_mat n n (self_tuning_step C ?sg)"
    by (rule is_mat_self_tuning_step [OF assms(1)])
  show ?thesis
    using bandwidth_estimate [OF assms(1) n assms(2,3)]
    by (simp add: SelfTuning_compute_log_affinity_unfold Let_def raw subtract_norm_term [OF L n]
        split: option.splits)
qed

lemma fl_exp_sub_log:
  assumes "fl_exp x = Fin e" "0 < z"
  shows "fl_exp (fl_sub x (Fin (ln z))) = fl_div (fl_exp x) (Fin z)"
proof (cases x)
  case (Fin l)
  then show ?thesis
    using assms(2) by (simp add: fl_sub_def exp_diff)
qed (use assms in \<open>simp_all add: fl_sub_def\<close>)

lemma fl_sum_finite_set:
  assumes "fl_sum xs = Fin r" "x \<in> set xs"
  shows "\<exists>e. x = Fin e"
  using fl_sum_finite [OF assms(1)] assms(2) by auto

lemma normalized_exp_sum:
  assumes "fl_sum (map fl_exp xs) = Fin z" "0 < z"
  shows "fl_sum (map (\<lambda>x. fl_exp (fl_sub x (fl_logsumexp xs))) xs) = Fin 1"
proof -
  have lse: "fl_logsumexp xs = Fin (ln z)"
    using assms by (simp add: fl_logsumexp_def)
  have "fl_exp (fl_sub x (Fin (ln z))) = fl_div (fl_exp x) (fl_sum (map fl_exp xs))"
    if x: "x \<in> set xs" for x
  proof -
    obtain e where "fl_exp x = Fin e"
      using fl_sum_finite_set [OF assms(1), of "fl_exp x"] x by auto
    then show ?thesis
      using assms by (simp add: fl_exp_sub_log)
  qed
  then have eq: "map (\<lambda>x. fl_exp (fl_sub x (fl_logsumexp xs))) xs
      = map (\<lambda>y. fl_div y (fl_sum (map fl_exp xs))) (map fl_exp xs)"
    by (simp add: lse)
  show ?thesis
    unfolding eq by (rule normalized_row_sum [OF assms])
qed

lemma tabulate_map_map:
  assumes "is_mat n m L"
  shows "map (\<lambda>i. map (\<lambda>j. g (L ! i ! j)) [0..<m]) [0..<n] = map (map g) L"
proof -
  have "map (\<lambda>j. g (r ! j)) [0..<m] = map g r" if "length r = m" for r :: "fl list"
    using that by (intro nth_equalityI) simp_all
  then have "map (\<lambda>i. map (\<lambda>j. g (L ! i ! j)) [0..<m]) [0..<n] = map (\<lambda>i. map g (L ! i)) [0..<n]"
    using assms by (simp add: is_mat_def list_all_length)
  also have "\<dots> = map (map g) L"
    using assms by (intro nth_equalityI) (simp_all add: is_mat_def)
  finally show ?thesis .
qed

text \<open>
  C5, as amended. With K from 1 to n on an n by n distance matrix and a normalisation axis
  specification, the self-tuning affinity returns the raw log-affinity minus its
  log-sum-exp over that specification and stores the subtracted term in
  \<^verbatim>\<open>log_normalization_\<close>. With the pair of axes, whenever the exponentials of the raw
  log-affinity have a finite positive sum, the exponentials of the returned entries sum to 1.
\<close>

theorem joint_normalization:
  assumes "is_mat n n C" and "1 \<le> st_K self" and "st_K self \<le> int n"
    and "st_normalization_dim self = Some d"
  shows "\<exists>L L'. log_SelfTuning C (kth_values C (st_K self)) = Inr L
       \<and> st_log_normalization (fst (SelfTuning_compute_log_affinity self C))
           = Some (logsumexp_red L d)
       \<and> snd (SelfTuning_compute_log_affinity self C) = Inr L'
       \<and> is_mat n n L'
       \<and> (\<forall>i<n. \<forall>j<n. L' ! i ! j = fl_sub (L ! i ! j) (norm_term L d i j))
       \<and> (d = Joint \<longrightarrow> (\<exists>z>0. total_mass L = Fin z) \<longrightarrow> total_mass L' = Fin 1)"
proof -
  define L where "L = self_tuning_step C (kth_values C (st_K self))"
  define L' where "L' = map (\<lambda>i. map (\<lambda>j. fl_sub (L ! i ! j) (norm_term L d i j)) [0..<n]) [0..<n]"
  have L: "is_mat n n L"
    unfolding L_def by (rule is_mat_self_tuning_step [OF assms(1)])
  have "length (kth_values C (st_K self)) = n"
    using assms(1) by (simp add: kth_values_def is_mat_def)
  then have raw: "log_SelfTuning C (kth_values C (st_K self)) = Inr L"
    unfolding L_def by (rule log_SelfTuning_step [OF assms(1)])
  have run: "SelfTuning_compute_log_affinity self C
      = (self\<lparr>st_sigma := Some (kth_values C (st_K self)),
               st_log_normalization := Some (logsumexp_red L d)\<rparr>, Inr L')"
    unfolding L_def L'_def using assms(4)
    by (simp add: SelfTuning_steps [OF assms(1-3)] Let_def)
  have shape: "is_mat n n L'"
    unfolding L'_def by (rule is_mat_tabulate)
  have entries: "\<forall>i<n. \<forall>j<n. L' ! i ! j = fl_sub (L ! i ! j) (norm_term L d i j)"
    by (simp add: L'_def)
  have mass: "total_mass L' = Fin 1" if "d = Joint" "0 < z" "total_mass L = Fin z" for z
  proof -
    have "L' = map (map (\<lambda>x. fl_sub x (fl_logsumexp (concat L)))) L"
      unfolding L'_def using that(1)
      by (simp add: norm_term_def
          tabulate_map_map [OF L, of "\<lambda>x. fl_sub x (fl_logsumexp (concat L))"])
    then have "concat L' = map (\<lambda>x. fl_sub x (fl_logsumexp (concat L))) (concat L)"
      by (simp add: map_concat)
    then show ?thesis
      using normalized_exp_sum [of "concat L" z] that(2,3) by (simp add: total_mass_def comp_def)
  qed
  show ?thesis
    using raw run shape entries mass by (intro exI [of _ L] exI [of _ L']) auto
qed

text \<open>
  C5 as stated fails on two identical points without diagonal masking and K = 1: both
  bandwidths are zero, every raw entry is \<^verbatim>\<open>-0/0\<close>, and the normalised entries and their
  sum are not-a-number.
\<close>

theorem joint_normalization_counterexample:
  "snd (SelfTuning_compute_log_affinity
      \<lparr>st_K = 1, st_normalization_dim = Some Joint, st_sigma = None, st_log_normalization = None\<rparr>
      [[Fin 0, Fin 0], [Fin 0, Fin 0]]) = Inr [[NaN, NaN], [NaN, NaN]]
   \<and> total_mass [[NaN, NaN], [NaN, NaN]] = NaN"
  by (simp add: SelfTuning_compute_log_affinity_unfold log_SelfTuning_def kmin_def ncols_def
      last_column_def bcast_def bcast_dim_def wrap_vectors_def neg_def pick_def
      matrix_transpose_def fl_sum_def inf_of_sign_def upt_rec logsumexp_red_def
      fl_logsumexp_def fl_sub_def total_mass_def)

theorem joint_normalization_witness:
  "is_mat 3 3 [[PInf, Fin 1, Fin 1], [Fin 1, PInf, Fin 2], [Fin 1, Fin 2, PInf]]
   \<and> (1::int) \<le> 1 \<and> (1::int) \<le> int 3
   \<and> (\<exists>L z. log_SelfTuning [[PInf, Fin 1, Fin 1], [Fin 1, PInf, Fin 2], [Fin 1, Fin 2, PInf]]
            (kth_values [[PInf, Fin 1, Fin 1], [Fin 1, PInf, Fin 2], [Fin 1, Fin 2, PInf]] 1) = Inr L
          \<and> 0 < z \<and> total_mass L = Fin z)
   \<and> (\<exists>L'. snd (SelfTuning_compute_log_affinity
            \<lparr>st_K = 1, st_normalization_dim = Some Joint, st_sigma = None,
               st_log_normalization = None\<rparr>
            [[PInf, Fin 1, Fin 1], [Fin 1, PInf, Fin 2], [Fin 1, Fin 2, PInf]]) = Inr L'
          \<and> total_mass L' = Fin 1)"
proof -
  let ?C = "[[PInf, Fin 1, Fin 1], [Fin 1, PInf, Fin 2], [Fin 1, Fin 2, PInf]]"
  let ?st = "\<lparr>st_K = 1, st_normalization_dim = Some Joint, st_sigma = None,
               st_log_normalization = None\<rparr>"
  let ?L = "[[NInf, Fin (- 1), Fin (- 1)], [Fin (- 1), NInf, Fin (- 2)], [Fin (- 1), Fin (- 2), NInf]]"
  have shape: "is_mat 3 3 ?C"
    by (simp add: is_mat_def)
  have raw: "log_SelfTuning ?C (kth_values ?C 1) = Inr ?L"
    by (simp add: log_SelfTuning_def kth_values_def bcast_def bcast_dim_def wrap_vectors_def
        neg_def pick_def ncols_def matrix_transpose_def upt_rec)
  have mass: "total_mass ?L = Fin (exp (- 1) + (exp (- 1) + (exp (- 1) + (exp (- 2) + (exp (- 1) + exp (- 2))))))"
    by (simp add: total_mass_def fl_sum_def)
  have pos: "0 < exp (- 1) + (exp (- 1) + (exp (- 1) + (exp (- 2) + (exp (- 1) + exp (- 2 :: real)))))"
    by (intro add_pos_pos exp_gt_zero)
  obtain L L' where *: "log_SelfTuning ?C (kth_values ?C (st_K ?st)) = Inr L"
      "snd (SelfTuning_compute_log_affinity ?st ?C) = Inr L'"
      "Joint = Joint \<longrightarrow> (\<exists>z>0. total_mass L = Fin z) \<longrightarrow> total_mass L' = Fin 1"
    using joint_normalization [of 3 ?C ?st Joint] shape by auto
  from *(1) raw have "L = ?L"
    by simp
  with *(3) mass pos have "total_mass L' = Fin 1"
    by blast
  with *(2) raw mass pos shape show ?thesis
    by auto
qed

section \<open>Zero bandwidths\<close>

lemma fl_div_zero_not_finite: "fl_div x (Fin 0) \<noteq> Fin r"
  by (cases x) (simp_all add: inf_of_sign_def)

lemma fl_div_NaN: "fl_div x NaN = NaN"
  by (cases x) simp_all

lemma fl_mul_zero: "fl_mul (Fin 0) y = Fin 0 \<or> fl_mul (Fin 0) y = NaN"
  by (cases y) (simp_all add: inf_of_sign_def)

lemma fl_div_mul_zero_not_finite: "fl_div x (fl_mul (Fin 0) y) \<noteq> Fin r"
  using fl_mul_zero [of y] by (auto simp: fl_div_zero_not_finite fl_div_NaN)

text \<open>
  C7, as amended. A zero bandwidth is not detected: with an n by n distance matrix and n
  bandwidths of which the one of row i is zero, both kernels perform the division and return
  a matrix, and no entry of its row i is finite.
\<close>

theorem zero_bandwidth_divides:
  assumes "is_mat n n C" and "length sigma = n" and "i < n" and "sigma ! i = Fin 0"
  shows "\<exists>L M. log_SelfTuning C sigma = Inr L \<and> log_MAGIC C sigma = Inr M
       \<and> (\<forall>j<n. (\<forall>r. L ! i ! j \<noteq> Fin r) \<and> (\<forall>r. M ! i ! j \<noteq> Fin r))"
proof -
  have n: "0 < n"
    using assms(3) by simp
  have "self_tuning_step C sigma ! i ! j \<noteq> Fin r" if "j < n" for j r
    using that assms(3,4)
    by (simp add: self_tuning_step_tabulate [OF assms(1)] fl_div_mul_zero_not_finite)
  moreover have "map (\<lambda>i. map (\<lambda>j. fl_div (fl_neg (C ! i ! j)) (sigma ! i)) [0..<n]) [0..<n] ! i ! j
      \<noteq> Fin r" if "j < n" for j r
    using that assms(3,4) by (simp add: fl_div_zero_not_finite)
  ultimately show ?thesis
    using log_SelfTuning_step [OF assms(1,2)] exp_log_MAGIC [OF assms(1,2) n] by blast
qed

theorem zero_bandwidth_divides_witness:
  "is_mat 2 2 [[PInf, Fin 0], [Fin 0, PInf]] \<and> length [Fin 0, Fin 0] = 2 \<and> (0::nat) < 2
   \<and> [Fin 0, Fin 0] ! 0 = Fin 0
   \<and> (\<exists>L M. log_SelfTuning [[PInf, Fin 0], [Fin 0, PInf]] [Fin 0, Fin 0] = Inr L
         \<and> log_MAGIC [[PInf, Fin 0], [Fin 0, PInf]] [Fin 0, Fin 0] = Inr M
         \<and> (\<forall>j<2. (\<forall>r. L ! 0 ! j \<noteq> Fin r) \<and> (\<forall>r. M ! 0 ! j \<noteq> Fin r)))"
  using zero_bandwidth_divides [of 2 "[[PInf, Fin 0], [Fin 0, PInf]]" "[Fin 0, Fin 0]" 0]
  by (simp add: is_mat_def)

text \<open>
  C7 as stated fails on three points of which the first two coincide, with the diagonal
  masked and the bandwidths of K = 1: both kernels return a matrix with infinite and
  not-a-number entries instead of raising \<^verbatim>\<open>DegenerateBandwidthError\<close>.
\<close>

theorem degenerate_bandwidth_counterexample:
  "log_SelfTuning [[PInf, Fin 0, Fin 1], [Fin 0, PInf, Fin 1], [Fin 1, Fin 1, PInf]]
       [Fin 0, Fin 0, Fin 1]
     = Inr [[NInf, NaN, NInf], [NaN, NInf, NInf], [NInf, NInf, NInf]]
   \<and> log_MAGIC [[PInf, Fin 0, Fin 1], [Fin 0, PInf, Fin 1], [Fin 1, Fin 1, PInf]]
       [Fin 0, Fin 0, Fin 1]
     = Inr [[NInf, NaN, NInf], [NaN, NInf, NInf], [Fin (- 1), Fin (- 1), NInf]]"
  by (simp add: log_SelfTuning_def log_MAGIC_def bcast_def bcast_dim_def wrap_vectors_def
      neg_def pick_def ncols_def matrix_transpose_def inf_of_sign_def upt_rec)

section \<open>Properties of the constructor of \<^verbatim>\<open>PHATE\<close>\<close>

text \<open>
  C8. With the backend \<^verbatim>\<open>"faiss"\<close> the constructor raises \<^verbatim>\<open>ValueError\<close> before it
  has made any call: no affinity is built and \<^verbatim>\<open>AffinityMatcher.__init__\<close> is not
  reached. With every other backend, \<^verbatim>\<open>None\<close> and \<^verbatim>\<open>"keops"\<close> among them, it raises
  nothing itself, builds both affinities and calls \<^verbatim>\<open>AffinityMatcher.__init__\<close>.
\<close>

theorem PHATE_backend_check:
  assumes "valid_keywords kw"
  shows "(arg kw ''backend'' = PStr ''faiss'' \<longrightarrow>
            PHATE_init cls kw = ([], Inl (ValueError (faiss_message cls))))
       \<and> (arg kw ''backend'' \<noteq> PStr ''faiss'' \<longrightarrow>
            (\<exists>obj. snd (PHATE_init cls kw) = Inr obj)
          \<and> map fst (fst (PHATE_init cls kw))
              = [''NegPotentialAffinity'', ''NegativeCostAffinity'', ''AffinityMatcher.__init__''])"
  using assms by (simp add: PHATE_init_def Let_def)

theorem PHATE_backend_check_witness:
  "valid_keywords [(''backend'', PStr ''faiss'')]
   \<and> arg [(''backend'', PStr ''faiss'')] ''backend'' = PStr ''faiss''
   \<and> PHATE_init ''PHATE'' [(''backend'', PStr ''faiss'')]
       = ([], Inl (ValueError (faiss_message ''PHATE'')))
   \<and> valid_keywords [(''backend'', PStr ''keops'')]
   \<and> arg [(''backend'', PStr ''keops'')] ''backend'' = PStr ''keops''
   \<and> (\<exists>obj. snd (PHATE_init ''PHATE'' [(''backend'', PStr ''keops'')]) = Inr obj)
   \<and> valid_keywords []
   \<and> arg [] ''backend'' = PNone
   \<and> (\<exists>obj. snd (PHATE_init ''PHATE'' []) = Inr obj)"
proof -
  have v: "valid_keywords [(''backend'', PStr ''faiss'')]"
    "valid_keywords [(''backend'', PStr ''keops'')]" "valid_keywords []"
    by (simp_all add: valid_keywords_def PHATE_signature_def)
  have a: "arg [(''backend'', PStr ''faiss'')] ''backend'' = PStr ''faiss''"
    "arg [(''backend'', PStr ''keops'')] ''backend'' = PStr ''keops''"
    "arg [] ''backend'' = PNone"
    by (simp_all add: arg_def PHATE_signature_def)
  show ?thesis
    using PHATE_backend_check [OF v(1), of "''PHATE''"]
      PHATE_backend_check [OF v(2), of "''PHATE''"]
      PHATE_backend_check [OF v(3), of "''PHATE''"] v a
    by simp
qed

text \<open>
  C10. A call that does not give \<^verbatim>\<open>init_scaling\<close> makes exactly three calls, in this
  order: \<^verbatim>\<open>NegPotentialAffinity\<close> with the backend, the device, \<^verbatim>\<open>eps\<close>, \<^verbatim>\<open>t\<close> and
  \<^verbatim>\<open>K = n_neighbors\<close>; \<^verbatim>\<open>NegativeCostAffinity\<close> with the backend and the device; and
  \<^verbatim>\<open>AffinityMatcher.__init__\<close> with these two objects as input and output affinity, the
  loss \<^verbatim>\<open>"l2_loss"\<close>, \<^verbatim>\<open>init_scaling = 1.0\<close>, which is not the documented 1e-4, and
  every other parameter as the call or its default gives it.
\<close>

theorem PHATE_default_wiring:
  assumes "valid_keywords kw" and "map_of kw ''init_scaling'' = None"
    and "arg kw ''backend'' \<noteq> PStr ''faiss''"
  shows "\<exists>obj. PHATE_init cls kw =
          ([(''NegPotentialAffinity'',
               [(''backend'', arg kw ''backend''), (''device'', arg kw ''device''),
                (''eps'', arg kw ''eps''), (''t'', arg kw ''t''),
                (''K'', arg kw ''n_neighbors'')]),
            (''NegativeCostAffinity'',
               [(''backend'', arg kw ''backend''), (''device'', arg kw ''device'')]),
            (''AffinityMatcher.__init__'',
               [(''affinity_in'', PObject ''NegPotentialAffinity''
                   [(''backend'', arg kw ''backend''), (''device'', arg kw ''device''),
                    (''eps'', arg kw ''eps''), (''t'', arg kw ''t''),
                    (''K'', arg kw ''n_neighbors'')]),
                (''affinity_out'', PObject ''NegativeCostAffinity''
                   [(''backend'', arg kw ''backend''), (''device'', arg kw ''device'')]),
                (''n_components'', arg kw ''n_components''),
                (''loss_fn'', PStr ''l2_loss''),
                (''optimizer'', arg kw ''optimizer''),
                (''optimizer_kwargs'', arg kw ''optimizer_kwargs''),
                (''lr'', arg kw ''lr''),
                (''scheduler'', arg kw ''scheduler''),
                (''scheduler_kwargs'', arg kw ''scheduler_kwargs''),
                (''min_grad_norm'', arg kw ''min_grad_norm''),
                (''max_iter'', arg kw ''max_iter''),
                (''init'', arg kw ''init''),
                (''init_scaling'', PFloat 1),
                (''device'', arg kw ''device''),
                (''backend'', arg kw ''backend''),
                (''verbose'', arg kw ''verbose''),
                (''random_state'', arg kw ''random_state''),
                (''check_interval'', arg kw ''check_interval'')])],
           Inr obj)
       \<and> ph_super_init obj = snd (last (fst (PHATE_init cls kw)))
       \<and> map_of (snd (last (fst (PHATE_init cls kw)))) ''init_scaling'' = Some (PFloat 1)
       \<and> PFloat 1 \<noteq> PFloat documented_init_scaling"
proof -
  have "arg kw ''init_scaling'' = PFloat 1"
    using assms(2) by (simp add: arg_def PHATE_signature_def)
  then show ?thesis
    using assms(1,3) by (simp add: PHATE_init_def Let_def documented_init_scaling_def)
qed

theorem PHATE_default_wiring_witness:
  "valid_keywords [(''n_neighbors'', PInt 15)]
   \<and> map_of [(''n_neighbors'', PInt 15)] ''init_scaling'' = None
   \<and> arg [(''n_neighbors'', PInt 15)] ''backend'' \<noteq> PStr ''faiss''
   \<and> fst (PHATE_init ''PHATE'' [(''n_neighbors'', PInt 15)]) =
         [(''NegPotentialAffinity'',
              [(''backend'', PNone), (''device'', PStr ''auto''),
               (''eps'', PFloat (1 / 100000)), (''t'', PInt 5), (''K'', PInt 15)]),
          (''NegativeCostAffinity'', [(''backend'', PNone), (''device'', PStr ''auto'')]),
          (''AffinityMatcher.__init__'',
              [(''affinity_in'', PObject ''NegPotentialAffinity''
                  [(''backend'', PNone), (''device'', PStr ''auto''),
                   (''eps'', PFloat (1 / 100000)), (''t'', PInt 5), (''K'', PInt 15)]),
               (''affinity_out'', PObject ''NegativeCostAffinity''
                  [(''backend'', PNone), (''device'', PStr ''auto'')]),
               (''n_components'', PInt 2),
               (''loss_fn'', PStr ''l2_loss''),
               (''optimizer'', PStr ''Adam''),
               (''optimizer_kwargs'', PDict []),
               (''lr'', PFloat 1),
               (''scheduler'', PNone),
               (''scheduler_kwargs'', PDict []),
               (''min_grad_norm'', PFloat (1 / 10000000)),
               (''max_iter'', PInt 1000),
               (''init'', PStr ''pca''),
               (''init_scaling'', PFloat 1),
               (''device'', PStr ''auto''),
               (''backend'', PNone),
               (''verbose'', PBool False),
               (''random_state'', PNone),
               (''check_interval'', PInt 50)])]"
proof -
  have v: "valid_keywords [(''n_neighbors'', PInt 15)]"
    by (simp add: valid_keywords_def PHATE_signature_def)
  have a: "arg [(''n_neighbors'', PInt 15)] ''backend'' = PNone"
    "arg [(''n_neighbors'', PInt 15)] ''device'' = PStr ''auto''"
    "arg [(''n_neighbors'', PInt 15)] ''eps'' = PFloat (1 / 100000)"
    "arg [(''n_neighbors'', PInt 15)] ''t'' = PInt 5"
    "arg [(''n_neighbors'', PInt 15)] ''n_neighbors'' = PInt 15"
    "arg [(''n_neighbors'', PInt 15)] ''n_components'' = PInt 2"
    "arg [(''n_neighbors'', PInt 15)] ''optimizer'' = PStr ''Adam''"
    "arg [(''n_neighbors'', PInt 15)] ''optimizer_kwargs'' = PDict []"
    "arg [(''n_neighbors'', PInt 15)] ''lr'' = PFloat 1"
    "arg [(''n_neighbors'', PInt 15)] ''scheduler'' = PNone"
    "arg [(''n_neighbors'', PInt 15)] ''scheduler_kwargs'' = PDict []"
    "arg [(''n_neighbors'', PInt 15)] ''min_grad_norm'' = PFloat (1 / 10000000)"
    "arg [(''n_neighbors'', PInt 15)] ''max_iter'' = PInt 1000"
    "arg [(''n_neighbors'', PInt 15)] ''init'' = PStr ''pca''"
    "arg [(''n_neighbors'', PInt 15)] ''verbose'' = PBool False"
    "arg [(''n_neighbors'', PInt 15)] ''random_state'' = PNone"
    "arg [(''n_neighbors'', PInt 15)] ''check_interval'' = PInt 50"
    by (simp_all add: arg_def PHATE_signature_def)
  show ?thesis
    using PHATE_default_wiring [OF v, of "''PHATE''"] v a
    by auto
qed

section \<open>Invalid K\<close>

lemma bcast_error: "bcast f A B = Inl e \<Longrightarrow> e = RuntimeError"
  by (auto simp: bcast_def split: option.splits)

lemma log_SelfTuning_error: "log_SelfTuning C sigma = Inl e \<Longrightarrow> e = RuntimeError"
  by (auto simp: log_SelfTuning_def Let_def split: sum.splits dest: bcast_error)

lemma log_MAGIC_error: "log_MAGIC C sigma = Inl e \<Longrightarrow> e = RuntimeError"
  by (auto simp: log_MAGIC_def dest: bcast_error)

lemma SelfTuning_with_raises:
  assumes "k_min C (st_K st) = Inl e"
  shows "SelfTuning_compute_log_affinity_with k_min st C = (st, Inl e)"
  using assms by (simp add: SelfTuning_compute_log_affinity_with_def)

lemma MAGIC_with_raises:
  assumes "k_min C (mg_K mg) = Inl e"
  shows "MAGIC_compute_affinity_with k_min mg C = (mg, Inl e)"
  using assms by (simp add: MAGIC_compute_affinity_with_def)

lemma SelfTuning_with_no_column:
  assumes "k_min C (st_K st) = Inr V" "ncols V = 0"
  shows "SelfTuning_compute_log_affinity_with k_min st C = (st, Inl IndexError)"
  using assms by (simp add: SelfTuning_compute_log_affinity_with_def last_column_def)

lemma MAGIC_with_no_column:
  assumes "k_min C (mg_K mg) = Inr V" "ncols V = 0"
  shows "MAGIC_compute_affinity_with k_min mg C = (mg, Inl IndexError)"
  using assms by (simp add: MAGIC_compute_affinity_with_def last_column_def)

lemma SelfTuning_with_proceeds:
  assumes "k_min C (st_K st) = Inr V" "ncols V \<noteq> 0"
  shows "st_sigma (fst (SelfTuning_compute_log_affinity_with k_min st C)) = Some (map last V)"
    and "snd (SelfTuning_compute_log_affinity_with k_min st C) \<noteq> Inl InvalidKError"
  using assms
  by (auto simp: SelfTuning_compute_log_affinity_with_def last_column_def Let_def
      split: sum.splits option.splits dest: log_SelfTuning_error bcast_error)

lemma MAGIC_with_proceeds:
  assumes "k_min C (mg_K mg) = Inr V" "ncols V \<noteq> 0"
  shows "mg_sigma (fst (MAGIC_compute_affinity_with k_min mg C)) = Some (map last V)"
    and "snd (MAGIC_compute_affinity_with k_min mg C) \<noteq> Inl InvalidKError"
  using assms
  by (auto simp: MAGIC_compute_affinity_with_def last_column_def Let_def
      split: sum.splits dest: log_MAGIC_error bcast_error)

text \<open>
  C6, as amended. Neither affinity checks K or raises \<^verbatim>\<open>InvalidKError\<close> of its own: each
  hands K unchanged to the helper and raises \<^verbatim>\<open>InvalidKError\<close> exactly when the helper
  does. An exception of the helper is propagated with the bandwidth still unset; values
  without a column make the slice \<^verbatim>\<open>minK_values[:, -1]\<close> raise \<^verbatim>\<open>IndexError\<close>;
  otherwise the last column of the returned values is stored as the bandwidth, whatever K
  was.
\<close>

theorem K_is_not_checked:
  assumes "st_K st = K" and "mg_K mg = K"
  shows "(snd (SelfTuning_compute_log_affinity_with k_min st C) = Inl InvalidKError
            \<longleftrightarrow> k_min C K = Inl InvalidKError)
       \<and> (snd (MAGIC_compute_affinity_with k_min mg C) = Inl InvalidKError
            \<longleftrightarrow> k_min C K = Inl InvalidKError)
       \<and> (\<forall>e. k_min C K = Inl e \<longrightarrow>
              SelfTuning_compute_log_affinity_with k_min st C = (st, Inl e)
            \<and> MAGIC_compute_affinity_with k_min mg C = (mg, Inl e))
       \<and> (\<forall>V. k_min C K = Inr V \<longrightarrow>
              (if ncols V = 0
               then SelfTuning_compute_log_affinity_with k_min st C = (st, Inl IndexError)
                  \<and> MAGIC_compute_affinity_with k_min mg C = (mg, Inl IndexError)
               else st_sigma (fst (SelfTuning_compute_log_affinity_with k_min st C))
                      = Some (map last V)
                  \<and> mg_sigma (fst (MAGIC_compute_affinity_with k_min mg C))
                      = Some (map last V)))"
proof (cases "k_min C K")
  case (Inl e)
  then show ?thesis
    using assms SelfTuning_with_raises [of k_min C st e] MAGIC_with_raises [of k_min C mg e]
    by simp
next
  case (Inr V)
  show ?thesis
  proof (cases "ncols V = 0")
    case True
    then show ?thesis
      using Inr assms SelfTuning_with_no_column [of k_min C st V]
        MAGIC_with_no_column [of k_min C mg V]
      by simp
  next
    case False
    then show ?thesis
      using Inr assms SelfTuning_with_proceeds [of k_min C st V]
        MAGIC_with_proceeds [of k_min C mg V]
      by simp
  qed
qed

text \<open>
  C6 as stated fails on three points with the diagonal masked: with K = 0 both affinities
  raise \<^verbatim>\<open>IndexError\<close> at the slice, and with K = 4, above the number of columns, neither
  raises \<^verbatim>\<open>InvalidKError\<close>.
\<close>

theorem K_is_not_checked_counterexample:
  "SelfTuning_compute_log_affinity
      \<lparr>st_K = 0, st_normalization_dim = Some Joint, st_sigma = None, st_log_normalization = None\<rparr>
      [[PInf, Fin 1, Fin 1], [Fin 1, PInf, Fin 2], [Fin 1, Fin 2, PInf]]
     = (\<lparr>st_K = 0, st_normalization_dim = Some Joint, st_sigma = None,
          st_log_normalization = None\<rparr>, Inl IndexError)
   \<and> MAGIC_compute_affinity \<lparr>mg_K = 0, mg_sigma = None\<rparr>
      [[PInf, Fin 1, Fin 1], [Fin 1, PInf, Fin 2], [Fin 1, Fin 2, PInf]]
     = (\<lparr>mg_K = 0, mg_sigma = None\<rparr>, Inl IndexError)
   \<and> snd (SelfTuning_compute_log_affinity
        \<lparr>st_K = 4, st_normalization_dim = Some Joint, st_sigma = None,
           st_log_normalization = None\<rparr>
        [[PInf, Fin 1, Fin 1], [Fin 1, PInf, Fin 2], [Fin 1, Fin 2, PInf]])
     \<noteq> Inl InvalidKError
   \<and> snd (MAGIC_compute_affinity \<lparr>mg_K = 4, mg_sigma = None\<rparr>
        [[PInf, Fin 1, Fin 1], [Fin 1, PInf, Fin 2], [Fin 1, Fin 2, PInf]])
     \<noteq> Inl InvalidKError"
  by (simp add: SelfTuning_compute_log_affinity_unfold MAGIC_compute_affinity_unfold
      log_SelfTuning_def log_MAGIC_def kmin_def ncols_def last_column_def bcast_def
      bcast_dim_def wrap_vectors_def neg_def pick_def exp_mat_def div_scalar_def sum_red_def
      matrix_transpose_def fl_sum_def inf_of_sign_def upt_rec logsumexp_red_def
      fl_logsumexp_def fl_sub_def)

theorem K_is_not_checked_witness:
  "kmin [[PInf, Fin 4, Fin 1], [Fin 4, PInf, Fin 9], [Fin 1, Fin 9, PInf]] 2
     = Inr [[Fin 1, Fin 4], [Fin 4, Fin 9], [Fin 1, Fin 9]]
   \<and> ncols [[Fin 1, Fin 4], [Fin 4, Fin 9], [Fin 1, Fin 9]] \<noteq> 0
   \<and> st_sigma (fst (SelfTuning_compute_log_affinity
         \<lparr>st_K = 2, st_normalization_dim = Some Joint, st_sigma = None,
            st_log_normalization = None\<rparr>
         [[PInf, Fin 4, Fin 1], [Fin 4, PInf, Fin 9], [Fin 1, Fin 9, PInf]]))
       = Some [Fin 4, Fin 9, Fin 9]
   \<and> mg_sigma (fst (MAGIC_compute_affinity \<lparr>mg_K = 2, mg_sigma = None\<rparr>
         [[PInf, Fin 4, Fin 1], [Fin 4, PInf, Fin 9], [Fin 1, Fin 9, PInf]]))
       = Some [Fin 4, Fin 9, Fin 9]
   \<and> MAGIC_compute_affinity_with (\<lambda>A k. Inl InvalidKError) \<lparr>mg_K = 2, mg_sigma = None\<rparr>
         [[PInf, Fin 4, Fin 1], [Fin 4, PInf, Fin 9], [Fin 1, Fin 9, PInf]]
       = (\<lparr>mg_K = 2, mg_sigma = None\<rparr>, Inl InvalidKError)"
proof -
  let ?C = "[[PInf, Fin 4, Fin 1], [Fin 4, PInf, Fin 9], [Fin 1, Fin 9, PInf]]"
  let ?st = "\<lparr>st_K = 2, st_normalization_dim = Some Joint, st_sigma = None,
            st_log_normalization = None\<rparr>"
  let ?mg = "\<lparr>mg_K = 2, mg_sigma = None\<rparr>"
  have k: "kmin ?C 2 = Inr [[Fin 1, Fin 4], [Fin 4, Fin 9], [Fin 1, Fin 9]]"
    by (simp add: kmin_def)
  have c: "ncols [[Fin 1, Fin 4], [Fin 4, Fin 9], [Fin 1, Fin 9]] \<noteq> 0"
    by (simp add: ncols_def)
  show ?thesis
    using K_is_not_checked [of ?st 2 ?mg kmin ?C]
      K_is_not_checked [of ?st 2 ?mg "\<lambda>A k. Inl InvalidKError" ?C] k c
    by (simp add: SelfTuning_compute_log_affinity_def MAGIC_compute_affinity_def)
qed

section \<open>The zero-diagonal policy\<close>















end
